theory Spec2Isabelle
  imports Main "HOL-Library.Word" "HOL-Library.Char_ord" "HOL-Library.List_Lexorder"
    "HOL-Library.AList"
begin

section \<open>Go strings and the library functions the index manager calls\<close>

text \<open>
  A Go \<^verbatim>\<open>string\<close> and a \<^verbatim>\<open>[]byte\<close> are byte sequences, and \<^verbatim>\<open>len\<close> and
  slicing count bytes: \<^typ>\<open>string\<close> (a list of 8-bit \<^typ>\<open>char\<close>) is the same thing.
  Go's \<^verbatim>\<open>int\<close> is 64 bits wide; the values below are lengths, counters and line numbers
  far from that bound, so they are \<^typ>\<open>int\<close>, and the one product the code forms
  (\<^verbatim>\<open>opts.MaxFiles * 2\<close>) has its wrap-around written out.
\<close>

datatype error =
    ResolvePathFailed
  | AccessDirectoryFailed
  | PathIsNotADirectory
  | CreateIndexDirFailed
  | CleanupOldIndexFailed
  | CreateBuilderFailed
  | IndexFilesFailed
  | FinishIndexFailed
  | SaveMetadataFailed
  | LoadIndexFailed
  | ParseQueryFailed
  | EngineSearchFailed
  | ReadDirFailed
  | RemoveFailed
  | WriteFileFailed
  | SliceBoundsPanic
  | NilMapAssignPanic
  | NilPointerPanic
  | WebServerAlreadyRunning int
  | WebServerNotRunning
  | ShutdownFailed
  | CreateSearcherFailed
  | ParseTemplateFailed
  | CreateMuxFailed
  | ListenFailed
  | WalkFailed
  | AddDocumentFailed

definition newline :: char where
  "newline = CHR 0x0A"

definition carriage_return :: char where
  "carriage_return = CHR 0x0D"

definition HasPrefix :: "string \<Rightarrow> string \<Rightarrow> bool" where
  "HasPrefix s p = (take (length p) s = p)"

definition HasSuffix :: "string \<Rightarrow> string \<Rightarrow> bool" where
  "HasSuffix s p = (length p \<le> length s \<and> drop (length s - length p) s = p)"

text \<open>\<^verbatim>\<open>strings.TrimRight(s, cutset)\<close> for a cutset of ASCII bytes.\<close>

definition TrimRight :: "string \<Rightarrow> string \<Rightarrow> string" where
  "TrimRight s cutset = rev (dropWhile (\<lambda>c. c \<in> set cutset) (rev s))"

text \<open>\<^verbatim>\<open>strings.Split(s, sep)\<close> and \<^verbatim>\<open>strings.Count(s, sep)\<close> for a one-byte separator:
  a string with \<open>n\<close> separators splits into \<open>n + 1\<close> pieces, the empty string into one
  empty piece.\<close>

fun SplitByte :: "char \<Rightarrow> string \<Rightarrow> string list" where
  "SplitByte sep [] = [[]]"
| "SplitByte sep (c # cs) =
     (if c = sep then [] # SplitByte sep cs
      else (case SplitByte sep cs of
              [] \<Rightarrow> [[c]]
            | p # ps \<Rightarrow> (c # p) # ps))"

definition CountByte :: "char \<Rightarrow> string \<Rightarrow> int" where
  "CountByte sep s = int (length (filter (\<lambda>c. c = sep) s))"

definition ReplaceAllByte :: "char \<Rightarrow> char \<Rightarrow> string \<Rightarrow> string" where
  "ReplaceAllByte old new s = map (\<lambda>c. if c = old then new else c) s"

text \<open>
  \<^verbatim>\<open>strings.TrimSpace(s) == ""\<close>: every rune of \<open>s\<close> is white space for
  \<^verbatim>\<open>unicode.IsSpace\<close>. The ASCII ones are tab, line feed, vertical tab, form feed,
  carriage return and space; the others are U+0085, U+00A0, U+1680, U+2000 to U+200A,
  U+2028, U+2029, U+202F, U+205F and U+3000, matched here by their UTF-8 encodings. Any
  other byte, also one that is not valid UTF-8, is not white space.
\<close>

definition asciiSpace :: "char \<Rightarrow> bool" where
  "asciiSpace c = (c = CHR 0x09 \<or> c = CHR 0x0A \<or> c = CHR 0x0B \<or> c = CHR 0x0C
                   \<or> c = CHR 0x0D \<or> c = CHR 0x20)"

fun onlySpace :: "string \<Rightarrow> bool" where
  "onlySpace [] = True"
| "onlySpace [c] = asciiSpace c"
| "onlySpace [c, d] =
     (if asciiSpace c then asciiSpace d
      else c = CHR 0xC2 \<and> (d = CHR 0x85 \<or> d = CHR 0xA0))"
| "onlySpace (c # d # e # r) =
     (if asciiSpace c then onlySpace (d # e # r)
      else if c = CHR 0xC2 then (d = CHR 0x85 \<or> d = CHR 0xA0) \<and> onlySpace (e # r)
      else if c = CHR 0xE1 then d = CHR 0x9A \<and> e = CHR 0x80 \<and> onlySpace r
      else if c = CHR 0xE2 then
        ((d = CHR 0x80 \<and> ((CHR 0x80 \<le> e \<and> e \<le> CHR 0x8A) \<or> e = CHR 0xA8
                            \<or> e = CHR 0xA9 \<or> e = CHR 0xAF))
         \<or> (d = CHR 0x81 \<and> e = CHR 0x9F)) \<and> onlySpace r
      else if c = CHR 0xE3 then d = CHR 0x80 \<and> e = CHR 0x80 \<and> onlySpace r
      else False)"

text \<open>\<^verbatim>\<open>fmt.Sprintf("%d", n)\<close>.\<close>

fun decimal :: "nat \<Rightarrow> string" where
  "decimal n =
     (if n < 10 then [''0123456789'' ! n]
      else decimal (n div 10) @ [''0123456789'' ! (n mod 10)])"

declare decimal.simps [simp del]

definition fmt_d :: "int \<Rightarrow> string" where
  "fmt_d n = (if n < 0 then CHR ''-'' # decimal (nat (- n)) else decimal (nat n))"

text \<open>A slice expression \<^verbatim>\<open>s[:n]\<close> panics when \<open>n\<close> is negative or beyond the length.\<close>

definition slice_to :: "string \<Rightarrow> int \<Rightarrow> error + string" where
  "slice_to s n =
     (if n < 0 \<or> int (length s) < n then Inl SliceBoundsPanic else Inr (take (nat n) s))"

subsection \<open>Paths (package \<^verbatim>\<open>path/filepath\<close>, separator \<^verbatim>\<open>/\<close>)\<close>

definition slash :: char where
  "slash = CHR ''/''"

text \<open>\<^verbatim>\<open>filepath.Base\<close>: trailing separators are dropped, then the last element is
  returned; the empty path gives \<^verbatim>\<open>.\<close> and a path of separators only gives \<^verbatim>\<open>/\<close>.\<close>

definition Base :: "string \<Rightarrow> string" where
  "Base path =
     (if path = [] then ''.''
      else let stripped = rev (dropWhile (\<lambda>c. c = slash) (rev path));
               elem = rev (takeWhile (\<lambda>c. c \<noteq> slash) (rev stripped))
           in if elem = [] then [slash] else elem)"

text \<open>\<^verbatim>\<open>filepath.Ext\<close>: the suffix of the last element that starts at its last dot.\<close>

fun ext_scan :: "string \<Rightarrow> string \<Rightarrow> string" where
  "ext_scan [] acc = []"
| "ext_scan (c # cs) acc =
     (if c = slash then []
      else if c = CHR ''.'' then c # acc
      else ext_scan cs (c # acc))"

definition Ext :: "string \<Rightarrow> string" where
  "Ext path = ext_scan (rev path) []"

text \<open>\<^verbatim>\<open>filepath.Clean\<close> works on the elements between separators: empty elements and
  \<^verbatim>\<open>.\<close> are dropped, \<^verbatim>\<open>..\<close> removes the element before it, is dropped at the root
  and is kept at the front of a relative path. The second argument is the output so
  far, last element first.\<close>

fun clean_elems :: "bool \<Rightarrow> string list \<Rightarrow> string list \<Rightarrow> string list" where
  "clean_elems rooted [] out = rev out"
| "clean_elems rooted (e # es) out =
     (if e = [] \<or> e = ''.'' then clean_elems rooted es out
      else if e = ''..'' then
        (case out of
           t # ts \<Rightarrow>
             if t \<noteq> ''..'' then clean_elems rooted es ts
             else clean_elems rooted es (e # out)
         | [] \<Rightarrow>
             if rooted then clean_elems rooted es out
             else clean_elems rooted es (e # out))
      else clean_elems rooted es (e # out))"

fun join_elems :: "string list \<Rightarrow> string" where
  "join_elems [] = []"
| "join_elems [e] = e"
| "join_elems (e # es) = e @ slash # join_elems es"

definition Clean :: "string \<Rightarrow> string" where
  "Clean path =
     (if path = [] then ''.''
      else let rooted = (hd path = slash);
               body = join_elems (clean_elems rooted (SplitByte slash path) []);
               res = (if rooted then slash # body else body)
           in if res = [] then ''.'' else res)"

text \<open>\<^verbatim>\<open>filepath.Join(a, b)\<close>: the first non-empty element starts the path.\<close>

definition Join :: "string \<Rightarrow> string \<Rightarrow> string" where
  "Join a b =
     (if a \<noteq> [] then Clean (a @ slash # b)
      else if b \<noteq> [] then Clean b
      else [])"

section \<open>Result shaping: \<^verbatim>\<open>truncateLine\<close> and the output loop of \<^verbatim>\<open>Search\<close>\<close>

definition truncateLine :: "string \<Rightarrow> int \<Rightarrow> error + string" where
  "truncateLine s maxLen =
     (if int (length s) \<le> maxLen then Inr s
      else if maxLen \<le> 3 then slice_to s maxLen
      else (case slice_to s (maxLen - 3) of
              Inl e \<Rightarrow> Inl e
            | Inr t \<Rightarrow> Inr (t @ ''...'')))"

record SearchOptions =
  MaxFiles :: int
  MaxLinesPerFile :: int
  MaxLineLength :: int
  FilesOnly :: bool

definition DefaultSearchOptions :: SearchOptions where
  "DefaultSearchOptions =
     \<lparr>MaxFiles = 20, MaxLinesPerFile = 3, MaxLineLength = 200, FilesOnly = False\<rparr>"

record SearchResult =
  TotalFiles :: int
  TotalMatches :: int
  Lines :: "string list"

text \<open>The engine's result types, with the fields the manager reads:
  \<^verbatim>\<open>zoekt.LineMatch\<close>, \<^verbatim>\<open>zoekt.ChunkMatch\<close> (its \<^verbatim>\<open>ContentStart.LineNumber\<close> is a
  \<^verbatim>\<open>uint32\<close>) and \<^verbatim>\<open>zoekt.FileMatch\<close>.\<close>

record LineMatch =
  Line :: string
  LineNumber :: int

record ChunkMatch =
  Content :: string
  ContentStartLineNumber :: "32 word"

record FileMatch =
  Repository :: string
  FileName :: string
  LineMatches :: "LineMatch list"
  ChunkMatches :: "ChunkMatch list"

record indexMetadata =
  SourceDir :: string

text \<open>A Go map of type \<^verbatim>\<open>map[string]*indexMetadata\<close>: the nil map (what JSON
  \<^verbatim>\<open>null\<close> decodes to) reads as empty and panics on assignment; a key can be bound to
  the nil pointer (\<open>None\<close>). The bindings of a map are kept in a list, of which the
  first binding of a key is the current one; nothing but \<open>map_lookup\<close> reads it.\<close>

datatype metadata_map =
    NilMap
  | GoMap "(string \<times> indexMetadata option) list"

definition map_lookup :: "metadata_map \<Rightarrow> string \<Rightarrow> indexMetadata option option" where
  "map_lookup m k = (case m of NilMap \<Rightarrow> None | GoMap xs \<Rightarrow> map_of xs k)"

definition map_delete :: "metadata_map \<Rightarrow> string \<Rightarrow> metadata_map" where
  "map_delete m k = (case m of NilMap \<Rightarrow> NilMap | GoMap xs \<Rightarrow> GoMap (AList.delete k xs))"

definition map_assign :: "metadata_map \<Rightarrow> string \<Rightarrow> indexMetadata option \<Rightarrow> error + metadata_map" where
  "map_assign m k v =
     (case m of NilMap \<Rightarrow> Inl NilMapAssignPanic | GoMap xs \<Rightarrow> Inr (GoMap (AList.update k v xs)))"

text \<open>
  Strings in \<^verbatim>\<open>encoding/json\<close>. The encoder copies every well-formed UTF-8 encoding
  of a code point and writes the replacement character U+FFFD (the bytes
  \<^verbatim>\<open>EF BF BD\<close>) for each byte that begins none; the decoder does the same with the
  bytes of a string of the text. \<open>rune_len s\<close> is the number of bytes of the
  well-formed encoding that \<open>s\<close> begins with, as \<^verbatim>\<open>utf8.DecodeRuneInString\<close> finds it,
  and 0 when there is none.
\<close>

definition continuation :: "char \<Rightarrow> bool" where
  "continuation c = (CHR 0x80 \<le> c \<and> c \<le> CHR 0xBF)"

definition second_ok :: "char \<Rightarrow> char \<Rightarrow> bool" where
  "second_ok a b =
     ((if a = CHR 0xE0 then CHR 0xA0 else if a = CHR 0xF0 then CHR 0x90 else CHR 0x80) \<le> b
      \<and> b \<le> (if a = CHR 0xED then CHR 0x9F else if a = CHR 0xF4 then CHR 0x8F else CHR 0xBF))"

definition rune_len :: "string \<Rightarrow> nat" where
  "rune_len s =
     (case s of
        [] \<Rightarrow> 0
      | a # s1 \<Rightarrow>
          if a < CHR 0x80 then 1
          else if CHR 0xC2 \<le> a \<and> a \<le> CHR 0xDF then
            (case s1 of b # s2 \<Rightarrow> if continuation b then 2 else 0 | [] \<Rightarrow> 0)
          else if CHR 0xE0 \<le> a \<and> a \<le> CHR 0xEF then
            (case s1 of
               b # c # s3 \<Rightarrow> if second_ok a b \<and> continuation c then 3 else 0
             | _ \<Rightarrow> 0)
          else if CHR 0xF0 \<le> a \<and> a \<le> CHR 0xF4 then
            (case s1 of
               b # c # d # s4 \<Rightarrow>
                 if second_ok a b \<and> continuation c \<and> continuation d then 4 else 0
             | _ \<Rightarrow> 0)
          else 0)"

definition replacement :: string where
  "replacement = [CHR 0xEF, CHR 0xBF, CHR 0xBD]"

text \<open>The scan of the encoder; \<open>k\<close> is the number of bytes of the current encoding
  that are still to be copied.\<close>

fun json_bytes :: "nat \<Rightarrow> string \<Rightarrow> string" where
  "json_bytes k [] = []"
| "json_bytes (Suc k) (c # cs) = c # json_bytes k cs"
| "json_bytes 0 (c # cs) =
     (case rune_len (c # cs) of
        0 \<Rightarrow> replacement @ json_bytes 0 cs
      | Suc n \<Rightarrow> c # json_bytes n cs)"

definition json_string :: "string \<Rightarrow> string" where
  "json_string s = json_bytes 0 s"

text \<open>
  The JSON documents that decode to a metadata map: \<^verbatim>\<open>null\<close>, or an object, kept as
  its members in the order of the text, each with its key and its value (\<^verbatim>\<open>null\<close>, or
  a record with its \<^verbatim>\<open>source_dir\<close>).

  \<^verbatim>\<open>json.MarshalIndent\<close> writes \<^verbatim>\<open>null\<close> for the nil map, and otherwise one member for
  each key of the map, sorted by key (the bytes of the key as the map has it), with the
  key and the \<^verbatim>\<open>source_dir\<close> of the record written as JSON strings.
  \<^verbatim>\<open>json.Unmarshal\<close> yields the nil map for \<^verbatim>\<open>null\<close>, and otherwise assigns the members
  to a fresh map in the order of the text, so of two members with the same key the later
  one stays. \<open>json_roundtrip\<close> is the one after the other.
\<close>

datatype json_document =
    JsonNull
  | JsonObject "(string \<times> indexMetadata option) list"

definition json_record :: "indexMetadata option \<Rightarrow> indexMetadata option" where
  "json_record v = map_option (\<lambda>r. r\<lparr>SourceDir := json_string (SourceDir r)\<rparr>) v"

definition json_member :: "string \<times> indexMetadata option \<Rightarrow> string \<times> indexMetadata option" where
  "json_member x = (json_string (fst x), json_record (snd x))"

definition json_members ::
  "(string \<times> indexMetadata option) list \<Rightarrow> (string \<times> indexMetadata option) list" where
  "json_members xs = map json_member (sort_key fst (AList.clearjunk xs))"

definition MarshalIndent :: "metadata_map \<Rightarrow> json_document" where
  "MarshalIndent m = (case m of NilMap \<Rightarrow> JsonNull | GoMap xs \<Rightarrow> JsonObject (json_members xs))"

definition Unmarshal :: "json_document \<Rightarrow> metadata_map" where
  "Unmarshal doc =
     (case doc of JsonNull \<Rightarrow> NilMap | JsonObject ms \<Rightarrow> GoMap (rev (map json_member ms)))"

definition json_roundtrip :: "metadata_map \<Rightarrow> metadata_map" where
  "json_roundtrip m = Unmarshal (MarshalIndent m)"

text \<open>One rendered line, \<^verbatim>\<open>fmt.Sprintf("%s:%d: %s", fullPath, n, content)\<close>.\<close>

definition match_line :: "string \<Rightarrow> int \<Rightarrow> string \<Rightarrow> string" where
  "match_line fullPath n content = fullPath @ '':'' @ fmt_d n @ '': '' @ content"

text \<open>The loop over \<^verbatim>\<open>fileMatch.LineMatches\<close>; the state is the result under
  construction and \<^verbatim>\<open>linesAdded\<close>.\<close>

fun lineMatches_loop ::
  "SearchOptions \<Rightarrow> string \<Rightarrow> LineMatch list \<Rightarrow> SearchResult \<times> int \<Rightarrow> error + SearchResult \<times> int"
where
  "lineMatches_loop opts fullPath [] st = Inr st"
| "lineMatches_loop opts fullPath (lm # lms) (sr, linesAdded) =
     (let sr1 = sr\<lparr>TotalMatches := TotalMatches sr + 1\<rparr>
      in if linesAdded \<ge> MaxLinesPerFile opts
         then lineMatches_loop opts fullPath lms (sr1, linesAdded)
         else (case truncateLine (TrimRight (Line lm) [newline, carriage_return])
                      (MaxLineLength opts) of
                 Inl e \<Rightarrow> Inl e
               | Inr content \<Rightarrow>
                   lineMatches_loop opts fullPath lms
                     (sr1\<lparr>Lines := Lines sr1 @ [match_line fullPath (LineNumber lm) content]\<rparr>,
                      linesAdded + 1)))"

text \<open>The loop over the lines of one chunk (\<open>i\<close> is the index of the line in the
  chunk) and the loop over \<^verbatim>\<open>fileMatch.ChunkMatches\<close>.\<close>

fun chunkLines_loop ::
  "SearchOptions \<Rightarrow> string \<Rightarrow> 32 word \<Rightarrow> int \<Rightarrow> string list \<Rightarrow> SearchResult \<times> int
     \<Rightarrow> error + SearchResult \<times> int"
where
  "chunkLines_loop opts fullPath start i [] st = Inr st"
| "chunkLines_loop opts fullPath start i (line # rest) (sr, linesAdded) =
     (if onlySpace line then chunkLines_loop opts fullPath start (i + 1) rest (sr, linesAdded)
      else
        let sr1 = sr\<lparr>TotalMatches := TotalMatches sr + 1\<rparr>
        in if linesAdded \<ge> MaxLinesPerFile opts
           then chunkLines_loop opts fullPath start (i + 1) rest (sr1, linesAdded)
           else (case truncateLine (TrimRight line [carriage_return]) (MaxLineLength opts) of
                   Inl e \<Rightarrow> Inl e
                 | Inr content \<Rightarrow>
                     chunkLines_loop opts fullPath start (i + 1) rest
                       (sr1\<lparr>Lines := Lines sr1 @ [match_line fullPath (uint start + i) content]\<rparr>,
                        linesAdded + 1)))"

fun chunkMatches_loop ::
  "SearchOptions \<Rightarrow> string \<Rightarrow> ChunkMatch list \<Rightarrow> SearchResult \<times> int \<Rightarrow> error + SearchResult \<times> int"
where
  "chunkMatches_loop opts fullPath [] st = Inr st"
| "chunkMatches_loop opts fullPath (chunk # chunks) st =
     (case chunkLines_loop opts fullPath (ContentStartLineNumber chunk) 0
             (SplitByte newline (Content chunk)) st of
        Inl e \<Rightarrow> Inl e
      | Inr st1 \<Rightarrow> chunkMatches_loop opts fullPath chunks st1)"

text \<open>\<^verbatim>\<open>totalInFile\<close>, the count the "more matches" indicator is computed from.\<close>

definition totalInFile :: "FileMatch \<Rightarrow> int" where
  "totalInFile fm =
     (if int (length (LineMatches fm)) = 0
      then (\<Sum>chunk \<leftarrow> ChunkMatches fm. CountByte newline (Content chunk) + 1)
      else int (length (LineMatches fm)))"

definition more_matches_line :: "int \<Rightarrow> string" where
  "more_matches_line n = ''  ... and '' @ fmt_d n @ '' more matches in this file''"

definition resolve_fullPath :: "metadata_map \<Rightarrow> FileMatch \<Rightarrow> error + string" where
  "resolve_fullPath metadata fm =
     (case map_lookup metadata (Repository fm) of
        None \<Rightarrow> Inr (FileName fm)
      | Some None \<Rightarrow> Inl NilPointerPanic
      | Some (Some meta) \<Rightarrow>
          Inr (if SourceDir meta \<noteq> [] then Join (SourceDir meta) (FileName fm)
               else FileName fm))"

text \<open>The body of the loop over \<^verbatim>\<open>result.Files\<close> for one file.\<close>

definition process_file :: "SearchOptions \<Rightarrow> metadata_map \<Rightarrow> FileMatch \<Rightarrow> SearchResult \<Rightarrow> error + SearchResult" where
  "process_file opts metadata fm sr =
     (case resolve_fullPath metadata fm of
        Inl e \<Rightarrow> Inl e
      | Inr fullPath \<Rightarrow>
          if FilesOnly opts then Inr (sr\<lparr>Lines := Lines sr @ [fullPath]\<rparr>)
          else
            (case lineMatches_loop opts fullPath (LineMatches fm) (sr, 0) of
               Inl e \<Rightarrow> Inl e
             | Inr st1 \<Rightarrow>
                 (case (if length (LineMatches fm) = 0
                        then chunkMatches_loop opts fullPath (ChunkMatches fm) st1
                        else Inr st1) of
                    Inl e \<Rightarrow> Inl e
                  | Inr (sr2, linesAdded) \<Rightarrow>
                      if totalInFile fm > MaxLinesPerFile opts
                      then Inr (sr2\<lparr>Lines := Lines sr2 @
                                  [more_matches_line (totalInFile fm - MaxLinesPerFile opts)]\<rparr>)
                      else Inr sr2)))"

fun files_loop ::
  "SearchOptions \<Rightarrow> metadata_map \<Rightarrow> FileMatch list \<Rightarrow> int \<Rightarrow> SearchResult \<Rightarrow> error + SearchResult"
where
  "files_loop opts metadata [] filesProcessed sr = Inr sr"
| "files_loop opts metadata (fm # fms) filesProcessed sr =
     (if filesProcessed \<ge> MaxFiles opts then Inr sr
      else (case process_file opts metadata fm sr of
              Inl e \<Rightarrow> Inl e
            | Inr sr1 \<Rightarrow> files_loop opts metadata fms (filesProcessed + 1) sr1))"

definition showing_line :: "int \<Rightarrow> int \<Rightarrow> string" where
  "showing_line shown all_files =
     newline # ''[Showing '' @ fmt_d shown @ '' of '' @ fmt_d all_files
       @ '' files. Use max_files to see more]''"

text \<open>"Build compact output": everything \<^verbatim>\<open>Search\<close> does with the engine's files.\<close>

definition build_output :: "SearchOptions \<Rightarrow> metadata_map \<Rightarrow> FileMatch list \<Rightarrow> error + SearchResult" where
  "build_output opts metadata files =
     (case files_loop opts metadata files 0
             \<lparr>TotalFiles = int (length files), TotalMatches = 0, Lines = []\<rparr> of
        Inl e \<Rightarrow> Inl e
      | Inr sr \<Rightarrow>
          if TotalFiles sr > MaxFiles opts
          then Inr (sr\<lparr>Lines := Lines sr @ [showing_line (MaxFiles opts) (TotalFiles sr)]\<rparr>)
          else Inr sr)"

text \<open>"Apply defaults for zero values", the first statements of \<^verbatim>\<open>Search\<close>.\<close>

definition apply_defaults :: "SearchOptions \<Rightarrow> SearchOptions" where
  "apply_defaults opts =
     (let o1 = (if MaxFiles opts \<le> 0 then opts\<lparr>MaxFiles := 20\<rparr> else opts);
          o2 = (if MaxLinesPerFile o1 \<le> 0 then o1\<lparr>MaxLinesPerFile := 3\<rparr> else o1);
          o3 = (if MaxLineLength o2 \<le> 0 then o2\<lparr>MaxLineLength := 200\<rparr> else o2)
      in o3)"

section \<open>The world outside the manager\<close>

text \<open>
  The index storage directory (\<^verbatim>\<open>m.indexDir\<close>) is flat. An entry is a subdirectory, a
  regular file, or a symbolic link (to nothing, to a directory, or to a file, with the
  bytes of that file). The bytes of a file are kept as what they stand for: a JSON
  document that decodes to the metadata map, an index shard of the engine (with a flag:
  fully built), or anything else (bytes that do not decode to the metadata map). The
  entries are listed in the order of \<^verbatim>\<open>os.ReadDir\<close>, sorted by name. The storage root
  itself may be missing, or may exist as something that is not a directory.
\<close>

datatype file_data =
    MetadataDoc json_document
  | ShardData bool
  | OtherData

datatype link_target =
    Dangling
  | LinkToDir
  | LinkToFile file_data

datatype dir_entry =
    SubDir
  | RegularFile file_data
  | Symlink link_target

datatype index_store =
    NoStore
  | StoreNotDir
  | StoreDir "(string \<times> dir_entry) list"

text \<open>The source tree that is indexed. A directory carries whether its names can be
  read, and its entries sorted by name; every other entry that \<^verbatim>\<open>lstat\<close> reports (a
  regular file, and also a symbolic link, which the walk does not follow) is a
  \<open>FileNode\<close> and carries what \<^verbatim>\<open>os.ReadFile\<close> reads there, or \<open>None\<close> when reading fails
  (as it does on a link to a directory); \<open>LstatFails\<close> is an entry whose \<^verbatim>\<open>lstat\<close> fails
  (deleted between the listing and the visit). Entry names are file names: not empty,
  without a separator, neither \<^verbatim>\<open>.\<close> nor \<^verbatim>\<open>..\<close>.\<close>

datatype fs_node =
    FileNode string "string option"
  | DirNode string bool "fs_node list"
  | LstatFails string

fun node_name :: "fs_node \<Rightarrow> string" where
  "node_name (FileNode n c) = n"
| "node_name (DirNode n r ns) = n"
| "node_name (LstatFails n) = n"

fun node_is_dir :: "fs_node \<Rightarrow> bool" where
  "node_is_dir (DirNode n r ns) = True"
| "node_is_dir other = False"

text \<open>What \<^verbatim>\<open>os.Stat\<close> finds at the path to be indexed. \<^verbatim>\<open>os.Stat\<close> follows symbolic
  links and \<^verbatim>\<open>filepath.Walk\<close> does not follow them, so for a directory the answer
  carries, besides the directory's listing, what \<^verbatim>\<open>os.Lstat\<close> finds at the same path:
  the directory itself, a symbolic link that leads to it, or an error.\<close>

datatype root_lstat =
    RootDir
  | RootSymlink
  | RootLstatFails

datatype stat_result =
    StatError
  | StatFile
  | StatDir root_lstat bool "fs_node list"

datatype write_outcome =
    WriteOk
  | OpenFails
  | WriteBreaksOff

text \<open>\<^verbatim>\<open>index.Document\<close>, with the fields the manager sets. From here on \<open>Content\<close>
  is the field of a document, and the field of a chunk is written \<open>ChunkMatch.Content\<close>.\<close>

record Document =
  Name :: string
  Content :: string

datatype engine_outcome =
    SearcherFails
  | ParseFails
  | SearchFails
  | Files "FileMatch list"

text \<open>
  What one call of the manager meets outside its own code: the digest
  (\<^verbatim>\<open>hex.EncodeToString(sha256.Sum256(s)[:8])\<close>), \<^verbatim>\<open>strings.ToLower\<close> on a string with a
  non-ASCII byte, the operating system's answers, and the engine. For
  \<^verbatim>\<open>builder.Finish\<close> the environment gives \<open>None\<close> when it fails, leaving no shard,
  and otherwise the names of the shard files it writes for the repository name and the
  documents it was given.
\<close>

record env =
  sha256_hex8 :: "string \<Rightarrow> string"
  unicode_ToLower :: "string \<Rightarrow> string"
  filepath_Abs :: "string \<Rightarrow> string option"
  os_Stat :: "string \<Rightarrow> stat_result"
  mkdirAll_fails :: bool
  readDir_fails :: bool
  remove_fails :: "string \<Rightarrow> bool"
  writeFile :: write_outcome
  newBuilder_fails :: bool
  add_fails :: "Document \<Rightarrow> bool"
  finish :: "string \<Rightarrow> Document list \<Rightarrow> string list option"
  zoekt_search :: "string \<Rightarrow> int \<Rightarrow> engine_outcome"

section \<open>Identity and the metadata document\<close>

definition getIndexPrefix :: "env \<Rightarrow> string \<Rightarrow> string" where
  "getIndexPrefix e sourceDir =
     ReplaceAllByte CHR '' '' CHR ''_'' (Base sourceDir) @ ''_'' @ sha256_hex8 e sourceDir"

definition metadata_name :: string where
  "metadata_name = ''metadata.json''"

text \<open>\<^verbatim>\<open>os.ReadFile\<close> of an entry of the storage directory: a link is followed.\<close>

fun read_entry :: "dir_entry option \<Rightarrow> file_data option" where
  "read_entry (Some (RegularFile d)) = Some d"
| "read_entry (Some (Symlink (LinkToFile d))) = Some d"
| "read_entry other = None"

text \<open>\<^verbatim>\<open>loadAllMetadata\<close>: a file that cannot be read or decoded gives a fresh empty map.\<close>

definition loadAllMetadata :: "index_store \<Rightarrow> metadata_map" where
  "loadAllMetadata st =
     (case st of
        StoreDir es \<Rightarrow>
          (case read_entry (map_of es metadata_name) of
             Some (MetadataDoc doc) \<Rightarrow> Unmarshal doc
           | _ \<Rightarrow> GoMap [])
      | _ \<Rightarrow> GoMap [])"

text \<open>Writing one entry of the directory: an existing name is replaced in place, a new
  one is inserted in name order.\<close>

fun put_entry :: "string \<Rightarrow> dir_entry \<Rightarrow> (string \<times> dir_entry) list \<Rightarrow> (string \<times> dir_entry) list" where
  "put_entry n d [] = [(n, d)]"
| "put_entry n d ((n', d') # es) =
     (if n = n' then (n, d) # es
      else if n < n' then (n, d) # (n', d') # es
      else (n', d') # put_entry n d es)"

text \<open>Opening an entry as \<^verbatim>\<open>os.WriteFile\<close> does (create, truncate, follow a link):
  \<open>None\<close> when the name is a directory or a link to one, and otherwise what the entry
  is once the bytes given have been written: a link stays a link, now to a file.\<close>

fun open_entry :: "dir_entry option \<Rightarrow> (file_data \<Rightarrow> dir_entry) option" where
  "open_entry (Some SubDir) = None"
| "open_entry (Some (Symlink LinkToDir)) = None"
| "open_entry (Some (Symlink t)) = Some (\<lambda>d. Symlink (LinkToFile d))"
| "open_entry other = Some RegularFile"

text \<open>\<^verbatim>\<open>saveAllMetadata\<close>, that is \<^verbatim>\<open>os.WriteFile\<close> of the document that
  \<^verbatim>\<open>json.MarshalIndent\<close> makes of the map (it has no error for a map of this type):
  opening fails when the directory is missing or the name is a directory or a link to
  one, and otherwise as the environment says; a write that breaks off leaves a truncated
  file.\<close>

definition saveAllMetadata :: "env \<Rightarrow> index_store \<Rightarrow> metadata_map \<Rightarrow> error option \<times> index_store" where
  "saveAllMetadata e st metadata =
     (case st of
        StoreDir es \<Rightarrow>
          (case open_entry (map_of es metadata_name) of
             None \<Rightarrow> (Some WriteFileFailed, st)
           | Some written \<Rightarrow>
               (case writeFile e of
                  WriteOk \<Rightarrow>
                    (None,
                     StoreDir (put_entry metadata_name
                       (written (MetadataDoc (MarshalIndent metadata))) es))
                | OpenFails \<Rightarrow> (Some WriteFileFailed, st)
                | WriteBreaksOff \<Rightarrow>
                    (Some WriteFileFailed, StoreDir (put_entry metadata_name (written OtherData) es))))
      | _ \<Rightarrow> (Some WriteFileFailed, st))"

definition saveIndexMetadata :: "env \<Rightarrow> index_store \<Rightarrow> string \<Rightarrow> error option \<times> index_store" where
  "saveIndexMetadata e st sourceDir =
     (case map_assign (loadAllMetadata st) (getIndexPrefix e sourceDir)
             (Some \<lparr>SourceDir = sourceDir\<rparr>) of
        Inl err \<Rightarrow> (Some err, st)
      | Inr metadata \<Rightarrow> saveAllMetadata e st metadata)"

section \<open>Deleting index files\<close>

text \<open>\<^verbatim>\<open>entry.IsDir()\<close> of an entry that \<^verbatim>\<open>os.ReadDir\<close> lists: a symbolic link is
  not a directory, whatever it leads to.\<close>

fun IsDir :: "dir_entry \<Rightarrow> bool" where
  "IsDir SubDir = True"
| "IsDir (RegularFile d) = False"
| "IsDir (Symlink t) = False"

definition is_index_file :: "string \<Rightarrow> string \<times> dir_entry \<Rightarrow> bool" where
  "is_index_file prefix entry =
     (\<not> IsDir (snd entry) \<and> HasPrefix (fst entry) prefix \<and> HasSuffix (fst entry) ''.zoekt'')"

text \<open>The loop of \<^verbatim>\<open>deleteIndexFiles\<close> over the entries read; the result is the entries
  that are left, with the error of the first \<^verbatim>\<open>os.Remove\<close> that fails.\<close>

fun remove_loop :: "env \<Rightarrow> string \<Rightarrow> (string \<times> dir_entry) list \<Rightarrow> error option \<times> (string \<times> dir_entry) list" where
  "remove_loop e prefix [] = (None, [])"
| "remove_loop e prefix (entry # es) =
     (if is_index_file prefix entry then
        (if remove_fails e (fst entry) then (Some RemoveFailed, entry # es)
         else remove_loop e prefix es)
      else (case remove_loop e prefix es of (r, es') \<Rightarrow> (r, entry # es')))"

definition deleteIndexFiles :: "env \<Rightarrow> index_store \<Rightarrow> string \<Rightarrow> error option \<times> index_store" where
  "deleteIndexFiles e st sourceDir =
     (let prefix = getIndexPrefix e sourceDir
      in case st of
           NoStore \<Rightarrow> (None, st)
         | StoreNotDir \<Rightarrow> (Some ReadDirFailed, st)
         | StoreDir es \<Rightarrow>
             if readDir_fails e then (Some ReadDirFailed, st)
             else (case remove_loop e prefix es of (r, es') \<Rightarrow> (r, StoreDir es')))"

definition DeleteIndex :: "env \<Rightarrow> index_store \<Rightarrow> string \<Rightarrow> error option \<times> index_store" where
  "DeleteIndex e st sourceDir =
     (case filepath_Abs e sourceDir of
        None \<Rightarrow> (Some ResolvePathFailed, st)
      | Some absPath \<Rightarrow>
          (case deleteIndexFiles e st absPath of
             (Some err, st1) \<Rightarrow> (Some err, st1)
           | (None, st1) \<Rightarrow>
               saveAllMetadata e st1
                 (map_delete (loadAllMetadata st1) (getIndexPrefix e absPath))))"

section \<open>Ingestion: the skip policy and the walk\<close>

definition isSkippedDir :: "string \<Rightarrow> bool" where
  "isSkippedDir name =
     (name \<in> set [''node_modules'', ''vendor'', ''__pycache__'', ''target'', ''build'', ''dist'',
                   ''.git'', ''.svn'', ''.hg'', ''.idea'', ''.vscode'', ''venv'', ''.venv'',
                   ''env'', ''.env''])"

definition binaryExts :: "string list" where
  "binaryExts =
     [''.exe'', ''.dll'', ''.so'', ''.dylib'',
      ''.bin'', ''.obj'', ''.o'', ''.a'',
      ''.zip'', ''.tar'', ''.gz'', ''.bz2'',
      ''.7z'', ''.rar'',
      ''.png'', ''.jpg'', ''.jpeg'', ''.gif'',
      ''.bmp'', ''.ico'', ''.webp'', ''.svg'',
      ''.mp3'', ''.mp4'', ''.avi'', ''.mov'',
      ''.pdf'', ''.doc'', ''.docx'', ''.xls'',
      ''.xlsx'', ''.ppt'', ''.pptx'',
      ''.class'', ''.jar'', ''.war'',
      ''.pyc'', ''.pyo'',
      ''.wasm'']"

text \<open>\<^verbatim>\<open>strings.ToLower\<close>: a string of ASCII bytes is lowered byte by byte; any other
  string goes through the Unicode tables, which the environment supplies.\<close>

definition ascii_lower :: "char \<Rightarrow> char" where
  "ascii_lower c =
     (if CHR ''A'' \<le> c \<and> c \<le> CHR ''Z'' then char_of (of_char c + (32::nat)) else c)"

definition ToLower :: "env \<Rightarrow> string \<Rightarrow> string" where
  "ToLower e s =
     (if list_all (\<lambda>c. c < CHR 0x80) s then map ascii_lower s else unicode_ToLower e s)"

definition isBinaryFile :: "env \<Rightarrow> string \<Rightarrow> bool" where
  "isBinaryFile e path = (ToLower e (Ext path) \<in> set binaryExts)"

definition isBinaryContent :: "string \<Rightarrow> bool" where
  "isBinaryContent content = (CHR 0x00 \<in> set (take 8192 content))"

text \<open>
  The callback that \<^verbatim>\<open>IndexDirectory\<close> hands to \<^verbatim>\<open>filepath.Walk\<close>. It is called with
  the path of the entry, of which it reads the base name (\<open>base\<close>: the entry's name, and
  for the root the base name of the directory being indexed) and the path relative to
  the root (\<open>rel\<close>, its elements), and with what the walk found there: an error, a
  directory, or a file (with the outcome of reading it). The builder is the list of
  documents added so far.
\<close>

datatype visit =
    VisitError
  | VisitDir
  | VisitFile "string option"

datatype walk_result =
    WalkNil
  | WalkSkipDir
  | WalkError error

definition walkFn :: "env \<Rightarrow> string \<Rightarrow> string list \<Rightarrow> visit \<Rightarrow> Document list \<Rightarrow> walk_result \<times> Document list" where
  "walkFn e base rel v docs =
     (case v of
        VisitError \<Rightarrow> (WalkError WalkFailed, docs)
      | VisitDir \<Rightarrow>
          if HasPrefix base ''.'' \<or> isSkippedDir base then (WalkSkipDir, docs)
          else (WalkNil, docs)
      | VisitFile read \<Rightarrow>
          if HasPrefix base ''.'' then (WalkNil, docs)
          else if isBinaryFile e base then (WalkNil, docs)
          else (case read of
                  None \<Rightarrow> (WalkNil, docs)
                | Some content \<Rightarrow>
                    if isBinaryContent content then (WalkNil, docs)
                    else let doc = \<lparr>Name = join_elems rel, Content = content\<rparr>
                         in if add_fails e doc then (WalkError AddDocumentFailed, docs)
                            else (WalkNil, docs @ [doc])))"

text \<open>
  The walk below the root: a file is visited; a directory is listed, then visited (with
  the listing's error, if any), and its entries are walked in order unless the visit
  returned something. \<^verbatim>\<open>SkipDir\<close> from a directory skips that directory only, from a
  file it ends the walk of the directory that holds the file; an error ends the walk.
\<close>

fun walk :: "env \<Rightarrow> string \<Rightarrow> string list \<Rightarrow> fs_node \<Rightarrow> Document list \<Rightarrow> walk_result \<times> Document list"
  and walk_names :: "env \<Rightarrow> string list \<Rightarrow> fs_node list \<Rightarrow> Document list \<Rightarrow> walk_result \<times> Document list"
where
  "walk e base rel (FileNode n c) docs = walkFn e base rel (VisitFile c) docs"
| "walk e base rel (DirNode n readable ns) docs =
     (if \<not> readable then walkFn e base rel VisitError docs
      else (case walkFn e base rel VisitDir docs of
              (WalkNil, docs1) \<Rightarrow> walk_names e rel ns docs1
            | (r, docs1) \<Rightarrow> (r, docs1)))"
| "walk e base rel (LstatFails n) docs = walkFn e base rel VisitError docs"
| "walk_names e rel [] docs = (WalkNil, docs)"
| "walk_names e rel (n # ns) docs =
     (case walk e (node_name n) (rel @ [node_name n]) n docs of
        (WalkNil, docs1) \<Rightarrow> walk_names e rel ns docs1
      | (WalkSkipDir, docs1) \<Rightarrow>
          if node_is_dir n then walk_names e rel ns docs1 else (WalkSkipDir, docs1)
      | (WalkError err, docs1) \<Rightarrow> (WalkError err, docs1))"

text \<open>
  \<^verbatim>\<open>filepath.Walk\<close> starts with \<^verbatim>\<open>os.Lstat\<close> of the root. When that fails the callback
  is called with the error. A root that is a symbolic link is not a directory for the
  walk: the callback is called for it as for a file, and there \<^verbatim>\<open>os.ReadFile\<close>, which
  follows the link to the directory, fails. Otherwise the root is walked as a directory.
  \<^verbatim>\<open>SkipDir\<close> from the root ends the walk without an error.
\<close>

definition Walk ::
  "env \<Rightarrow> string \<Rightarrow> root_lstat \<Rightarrow> bool \<Rightarrow> fs_node list \<Rightarrow> Document list
     \<Rightarrow> walk_result \<times> Document list" where
  "Walk e root lst readable ns docs =
     (case (case lst of
              RootLstatFails \<Rightarrow> walkFn e (Base root) [] VisitError docs
            | RootSymlink \<Rightarrow> walkFn e (Base root) [] (VisitFile None) docs
            | RootDir \<Rightarrow> walk e (Base root) [] (DirNode (Base root) readable ns) docs) of
        (WalkSkipDir, docs1) \<Rightarrow> (WalkNil, docs1)
      | (r, docs1) \<Rightarrow> (r, docs1))"

section \<open>\<^verbatim>\<open>IndexDirectory\<close>\<close>

text \<open>Every error that \<^verbatim>\<open>IndexDirectory\<close> returns is wrapped with the step that
  failed; a panic (the assignment to a nil metadata map) is not an error value and
  passes through as it is.\<close>

definition MkdirAll :: "env \<Rightarrow> index_store \<Rightarrow> error option \<times> index_store" where
  "MkdirAll e st =
     (case st of
        StoreDir es \<Rightarrow> (None, st)
      | StoreNotDir \<Rightarrow> (Some CreateIndexDirFailed, st)
      | NoStore \<Rightarrow>
          if mkdirAll_fails e then (Some CreateIndexDirFailed, st) else (None, StoreDir []))"

text \<open>\<^verbatim>\<open>builder.Finish\<close>: on success the shards it names are in the storage directory,
  fully built.\<close>

definition write_shards :: "string list \<Rightarrow> index_store \<Rightarrow> index_store" where
  "write_shards names st =
     (case st of
        StoreDir es \<Rightarrow> StoreDir (foldr (\<lambda>n. put_entry n (RegularFile (ShardData True))) names es)
      | _ \<Rightarrow> st)"

definition builder_Finish :: "env \<Rightarrow> index_store \<Rightarrow> string \<Rightarrow> Document list \<Rightarrow> error option \<times> index_store" where
  "builder_Finish e st repoName docs =
     (case finish e repoName docs of
        None \<Rightarrow> (Some FinishIndexFailed, st)
      | Some names \<Rightarrow> (None, write_shards names st))"

definition IndexDirectory :: "env \<Rightarrow> index_store \<Rightarrow> string \<Rightarrow> error option \<times> index_store" where
  "IndexDirectory e st sourceDir =
     (case filepath_Abs e sourceDir of
        None \<Rightarrow> (Some ResolvePathFailed, st)
      | Some absPath \<Rightarrow>
          (case os_Stat e absPath of
             StatError \<Rightarrow> (Some AccessDirectoryFailed, st)
           | StatFile \<Rightarrow> (Some PathIsNotADirectory, st)
           | StatDir lst readable ns \<Rightarrow>
               (case MkdirAll e st of
                  (Some err, st1) \<Rightarrow> (Some CreateIndexDirFailed, st1)
                | (None, st1) \<Rightarrow>
                    (case deleteIndexFiles e st1 absPath of
                       (Some err, st2) \<Rightarrow> (Some CleanupOldIndexFailed, st2)
                     | (None, st2) \<Rightarrow>
                         if newBuilder_fails e then (Some CreateBuilderFailed, st2)
                         else
                           (case Walk e absPath lst readable ns [] of
                              (WalkError err, docs) \<Rightarrow>
                                (Some IndexFilesFailed,
                                 snd (builder_Finish e st2 (getIndexPrefix e absPath) docs))
                            | (r, docs) \<Rightarrow>
                                (case builder_Finish e st2 (getIndexPrefix e absPath) docs of
                                   (Some err, st3) \<Rightarrow> (Some FinishIndexFailed, st3)
                                 | (None, st3) \<Rightarrow>
                                     (case saveIndexMetadata e st3 absPath of
                                        (Some NilMapAssignPanic, st4) \<Rightarrow>
                                          (Some NilMapAssignPanic, st4)
                                      | (Some err, st4) \<Rightarrow> (Some SaveMetadataFailed, st4)
                                      | (None, st4) \<Rightarrow> (None, st4))))))))"

section \<open>\<^verbatim>\<open>Search\<close>\<close>

text \<open>The engine is asked for \<^verbatim>\<open>opts.MaxFiles * 2\<close> files, a 64-bit product.\<close>

definition MaxDocDisplayCount :: "SearchOptions \<Rightarrow> int" where
  "MaxDocDisplayCount opts = sint (word_of_int (MaxFiles opts * 2) :: 64 word)"

definition Search :: "env \<Rightarrow> index_store \<Rightarrow> string \<Rightarrow> string \<Rightarrow> SearchOptions \<Rightarrow> error + SearchResult" where
  "Search e st queryStr sourceDir opts0 =
     (let opts = apply_defaults opts0
      in case (if sourceDir \<noteq> []
               then (case filepath_Abs e sourceDir of
                       None \<Rightarrow> Inl ResolvePathFailed
                     | Some absPath \<Rightarrow>
                         Inr (''repo:'' @ getIndexPrefix e absPath @ '' '' @ queryStr))
               else Inr queryStr) of
           Inl err \<Rightarrow> Inl err
         | Inr q \<Rightarrow>
             (case zoekt_search e q (MaxDocDisplayCount opts) of
                SearcherFails \<Rightarrow> Inl LoadIndexFailed
              | ParseFails \<Rightarrow> Inl ParseQueryFailed
              | SearchFails \<Rightarrow> Inl EngineSearchFailed
              | Files files \<Rightarrow> build_output opts (loadAllMetadata st) files))"

section \<open>The web server manager\<close>

text \<open>
  The manager's fields, all read and written under its mutex: each operation below is
  one critical section. \<open>server\<close> is the handle of the HTTP server (\<open>None\<close> is nil) and
  \<open>startedAt\<close> a time stamp. What \<^verbatim>\<open>Start\<close> and \<^verbatim>\<open>Stop\<close> meet outside (the searcher, the
  templates, the listener with the port it is bound to, the clock, and whether
  \<^verbatim>\<open>Shutdown\<close> returns an error, as it does when its five seconds run out) is a
  parameter.
\<close>

record WebServerManager =
  server :: "nat option"
  port :: int
  running :: bool
  startedAt :: nat

record WebServerStatus =
  Running :: bool
  Port :: int
  URL :: string
  StartedAt :: nat

record web_env =
  searcher_fails :: bool
  template_fails :: bool
  mux_fails :: bool
  listen :: "int \<Rightarrow> int option"
  now :: nat
  new_server :: nat
  shutdown_fails :: bool

definition NewWebServerManager :: WebServerManager where
  "NewWebServerManager = \<lparr>server = None, port = 0, running = False, startedAt = 0\<rparr>"

definition server_url :: "int \<Rightarrow> string" where
  "server_url p = ''http://127.0.0.1:'' @ fmt_d p"

definition Start :: "web_env \<Rightarrow> WebServerManager \<Rightarrow> int \<Rightarrow> (error + WebServerStatus) \<times> WebServerManager" where
  "Start w m p =
     (if running m then (Inl (WebServerAlreadyRunning (port m)), m)
      else if searcher_fails w then (Inl CreateSearcherFailed, m)
      else if template_fails w then (Inl ParseTemplateFailed, m)
      else if mux_fails w then (Inl CreateMuxFailed, m)
      else (case listen w p of
              None \<Rightarrow> (Inl ListenFailed, m)
            | Some actualPort \<Rightarrow>
                (Inr \<lparr>Running = True, Port = actualPort, URL = server_url actualPort,
                      StartedAt = now w\<rparr>,
                 m\<lparr>server := Some (new_server w), port := actualPort, running := True,
                   startedAt := now w\<rparr>)))"

text \<open>The goroutine started by \<^verbatim>\<open>Start\<close>: when \<^verbatim>\<open>Serve\<close> returns an error other than
  \<^verbatim>\<open>http.ErrServerClosed\<close>, it clears the running flag.\<close>

definition serve_stopped_unexpectedly :: "WebServerManager \<Rightarrow> WebServerManager" where
  "serve_stopped_unexpectedly m = m\<lparr>running := False\<rparr>"

definition Stop :: "web_env \<Rightarrow> WebServerManager \<Rightarrow> error option \<times> WebServerManager" where
  "Stop w m =
     (if \<not> running m then (Some WebServerNotRunning, m)
      else if shutdown_fails w then (Some ShutdownFailed, m)
      else (None, m\<lparr>running := False, server := None, port := 0\<rparr>))"

definition Status :: "WebServerManager \<Rightarrow> WebServerStatus" where
  "Status m =
     (if \<not> running m then \<lparr>Running = False, Port = 0, URL = [], StartedAt = 0\<rparr>
      else \<lparr>Running = True, Port = port m, URL = server_url (port m), StartedAt = startedAt m\<rparr>)"

section \<open>Sample data\<close>

text \<open>An environment in which nothing fails: the digest is that of SHA-256 on the
  paths used below (and a placeholder elsewhere), every directory holds the sample
  tree, the engine names one shard after the repository and answers every search with
  the files given. \<open>cafe_path\<close> is a path whose last byte, \<^verbatim>\<open>E9\<close>, is no UTF-8.\<close>

definition cafe_path :: string where
  "cafe_path = ''/home/u/caf'' @ [CHR 0xE9]"

definition sample_digest :: "string \<Rightarrow> string" where
  "sample_digest s =
     (if s = ''/home/u/proj'' then ''9c09f8055a26c277''
      else if s = ''/home/u/build'' then ''e414d6c81e457f8e''
      else if s = ''/srv/app'' then ''dae668e4084f07b6''
      else if s = ''/home/u/proj_9c09f8055a26c277_v2'' then ''14834d161af29bc9''
      else if s = ''/home/u/link'' then ''aeface34958458a5''
      else if s = cafe_path then ''c77c3e8c26f8021d''
      else ''0000000000000000'')"

definition sample_tree :: "fs_node list" where
  "sample_tree =
     [FileNode ''logo.dat'' (Some [CHR ''a'', CHR 0x00, CHR ''b'']),
      FileNode ''main.go'' (Some ''package main''),
      DirNode ''node_modules'' True [FileNode ''index.ts'' (Some ''export {}'')]]"

definition sample_env :: "FileMatch list \<Rightarrow> env" where
  "sample_env files =
     \<lparr>sha256_hex8 = sample_digest,
      unicode_ToLower = (\<lambda>s. s),
      filepath_Abs = Some,
      os_Stat = (\<lambda>p. StatDir RootDir True sample_tree),
      mkdirAll_fails = False,
      readDir_fails = False,
      remove_fails = (\<lambda>n. False),
      writeFile = WriteOk,
      newBuilder_fails = False,
      add_fails = (\<lambda>d. False),
      finish = (\<lambda>repo docs. Some [repo @ ''_v16.00000.zoekt'']),
      zoekt_search = (\<lambda>q n. Files files)\<rparr>"

text \<open>Five matching files with ten line matches each.\<close>

definition ten_matches :: "LineMatch list" where
  "ten_matches = map (\<lambda>i. \<lparr>Line = ''needle'', LineNumber = int i\<rparr>) [1..<11]"

definition five_files :: "FileMatch list" where
  "five_files =
     map (\<lambda>n. \<lparr>Repository = ''repo'', FileName = ''f'' @ fmt_d n @ ''.go'',
                LineMatches = ten_matches, ChunkMatches = []\<rparr>) [1, 2, 3, 4, 5]"

text \<open>One file that the engine reports by a chunk of five lines, each with its
  terminating newline, starting at line 10.\<close>

definition chunk_file :: FileMatch where
  "chunk_file =
     \<lparr>Repository = ''repo'', FileName = ''a.go'', LineMatches = [],
      ChunkMatches =
        [\<lparr>ChunkMatch.Content = ''alpha'' @ [newline] @ ''beta'' @ [newline] @ ''gamma'' @ [newline]
                      @ ''delta'' @ [newline] @ ''epsilon'' @ [newline],
          ContentStartLineNumber = 10\<rparr>]\<rparr>"

text \<open>The path a processed file is shown under, where resolving it does not panic.\<close>

definition fullPath_of :: "metadata_map \<Rightarrow> FileMatch \<Rightarrow> string" where
  "fullPath_of metadata fm =
     (case resolve_fullPath metadata fm of Inr p \<Rightarrow> p | Inl err \<Rightarrow> [])"

text \<open>A web-server environment in which nothing fails but, on request, the shutdown,
  and the manager after a successful start on port 6070.\<close>

definition sample_web :: "bool \<Rightarrow> web_env" where
  "sample_web timeout =
     \<lparr>searcher_fails = False, template_fails = False, mux_fails = False,
      listen = (\<lambda>p. Some (if p = 0 then 49152 else p)), now = 1000, new_server = 1,
      shutdown_fails = timeout\<rparr>"

definition started :: WebServerManager where
  "started = snd (Start (sample_web False) NewWebServerManager 6070)"


text \<open>A storage directory that holds the metadata document, the shard of
  \<^verbatim>\<open>/home/u/proj\<close>, a shard of another directory, a subdirectory and a plain file.\<close>

definition proj_record :: json_document where
  "proj_record =
     JsonObject [(''proj_9c09f8055a26c277'', Some \<lparr>SourceDir = ''/home/u/proj''\<rparr>)]"

definition sample_entries :: "(string \<times> dir_entry) list" where
  "sample_entries =
     [(''app_dae668e4084f07b6_v16.00000.zoekt'', RegularFile (ShardData True)),
      (''metadata.json'', RegularFile (MetadataDoc proj_record)),
      (''proj_9c09f8055a26c277_old.zoekt'', SubDir),
      (''proj_9c09f8055a26c277_v16.00000.zoekt'', RegularFile (ShardData True)),
      (''proj_9c09f8055a26c277_v16.log'', RegularFile OtherData)]"

section \<open>The skip policy as the specification words it\<close>

text \<open>
  The files the specification admits (section 4.2), stated on the tree and not on the
  walk: \<open>admissible e ns p c\<close> says that below a directory with the entries \<open>ns\<close>, the
  relative path with the elements \<open>p\<close> leads to a readable file of content \<open>c\<close>, through
  directories that are neither hidden nor on the denylist, and that the file is not
  hidden, has no extension of the binary list and no null byte in its first 8 KiB.
\<close>

inductive admissible :: "env \<Rightarrow> fs_node list \<Rightarrow> string list \<Rightarrow> string \<Rightarrow> bool" for e where
  admissible_file:
    "FileNode n (Some c) \<in> set ns \<Longrightarrow> \<not> HasPrefix n ''.'' \<Longrightarrow> \<not> isBinaryFile e n
       \<Longrightarrow> \<not> isBinaryContent c \<Longrightarrow> admissible e ns [n] c"
| admissible_dir:
    "DirNode n readable ms \<in> set ns \<Longrightarrow> \<not> HasPrefix n ''.'' \<Longrightarrow> \<not> isSkippedDir n
       \<Longrightarrow> admissible e ms p c \<Longrightarrow> admissible e ns (n # p) c"

section \<open>Records and their artifacts\<close>

text \<open>
  The invariant of the specification: every record of the metadata document has an
  artifact, that is a fully built shard in the storage directory whose name starts with
  the record's identifier and ends in \<^verbatim>\<open>.zoekt\<close> (the naming by which
  \<^verbatim>\<open>deleteIndexFiles\<close> finds the files of an identifier).
\<close>

definition is_artifact_of :: "string \<Rightarrow> string \<times> dir_entry \<Rightarrow> bool" where
  "is_artifact_of k entry =
     (case snd entry of
        RegularFile (ShardData built) \<Rightarrow>
          built \<and> HasPrefix (fst entry) k \<and> HasSuffix (fst entry) ''.zoekt''
      | _ \<Rightarrow> False)"

definition has_artifact :: "index_store \<Rightarrow> string \<Rightarrow> bool" where
  "has_artifact st k = (case st of StoreDir es \<Rightarrow> list_ex (is_artifact_of k) es | _ \<Rightarrow> False)"









text \<open>
  Two identifiers are told apart by the file names when neither is a prefix of the
  other: then no file name starts with both. A step of a sequence is admitted when it
  leaves the store as it was, or else when all of this holds: the identifier of its
  directory is told apart from every other identifier that has a record; if it is an
  \<^verbatim>\<open>IndexDirectory\<close> that succeeds, the engine names its shards by the repository and
  the identifier is valid UTF-8 (the JSON encoder leaves it as it is); and the operation
  succeeds, or its directory has no record when it is applied, or an artifact of its
  directory is there when it returns.
\<close>

definition prefix_free :: "string \<Rightarrow> string \<Rightarrow> bool" where
  "prefix_free k p = (\<not> HasPrefix k p \<and> \<not> HasPrefix p k)"







definition linked_root_env :: env where
  "linked_root_env = (sample_env [])\<lparr>os_Stat := (\<lambda>p. StatDir RootSymlink True sample_tree)\<rparr>"













text \<open>A storage directory with the shard of \<^verbatim>\<open>/home/u/proj\<close>, a symbolic link named
  like a shard of it, and the shard of the directory
  \<^verbatim>\<open>/home/u/proj_9c09f8055a26c277_v2\<close>, whose identifier extends that of
  \<^verbatim>\<open>/home/u/proj\<close>.\<close>

definition extending_entries :: "(string \<times> dir_entry) list" where
  "extending_entries =
     [(''proj_9c09f8055a26c277_v16.00000.zoekt'', RegularFile (ShardData True)),
      (''proj_9c09f8055a26c277_v16.00001.zoekt'', Symlink Dangling),
      (''proj_9c09f8055a26c277_v2_14834d161af29bc9_v16.00000.zoekt'', RegularFile (ShardData True))]"



section \<open>Line truncation\<close>


lemma slice_to_negative: "n < 0 \<Longrightarrow> slice_to s n = Inl SliceBoundsPanic"
  by (simp add: slice_to_def)

text \<open>\<^verbatim>\<open>truncateLine\<close> is called by \<^verbatim>\<open>Search\<close> only, with the \<^verbatim>\<open>MaxLineLength\<close> of
  the options after the defaults have been applied: a positive number.\<close>

lemma MaxLineLength_positive: "0 < MaxLineLength (apply_defaults opts)"
  by (simp add: apply_defaults_def Let_def)



section \<open>Option defaults\<close>






section \<open>Stopping the web server\<close>

lemma started_eq:
  "started = \<lparr>server = Some 1, port = 6070, running = True, startedAt = 1000\<rparr>"
  by (simp add: started_def Start_def sample_web_def NewWebServerManager_def)

text \<open>
  C3 (as amended). For every \<^verbatim>\<open>Stop\<close> made while the server is running: when
  \<^verbatim>\<open>Shutdown\<close> returns no error, \<^verbatim>\<open>Stop\<close> succeeds and clears the running flag, the
  server handle and the port, the status then reports not running and no later
  \<^verbatim>\<open>Start\<close> is refused as already running; when \<^verbatim>\<open>Shutdown\<close> returns an error (its
  five seconds ran out), \<^verbatim>\<open>Stop\<close> returns that failure and changes nothing, so the
  status still reports running and a \<^verbatim>\<open>Start\<close> is refused as already running.
\<close>

theorem C3_Stop:
  "running m \<Longrightarrow>
     (\<not> shutdown_fails w \<longrightarrow>
        Stop w m = (None, m\<lparr>running := False, server := None, port := 0\<rparr>)
        \<and> \<not> running (snd (Stop w m)) \<and> port (snd (Stop w m)) = 0
        \<and> \<not> Running (Status (snd (Stop w m)))
        \<and> (\<forall>w' p k. fst (Start w' (snd (Stop w m)) p) \<noteq> Inl (WebServerAlreadyRunning k)))
     \<and> (shutdown_fails w \<longrightarrow>
        Stop w m = (Some ShutdownFailed, m)
        \<and> Running (Status (snd (Stop w m)))
        \<and> (\<forall>w' p. fst (Start w' (snd (Stop w m)) p) = Inl (WebServerAlreadyRunning (port m))))"
  by (auto simp: Stop_def Status_def Start_def split: option.splits)

theorem C3_Stop_witness:
  "running started
   \<and> Stop (sample_web False) started
       = (None, \<lparr>server = None, port = 0, running = False, startedAt = 1000\<rparr>)
   \<and> \<not> Running (Status (snd (Stop (sample_web False) started)))
   \<and> Stop (sample_web True) started = (Some ShutdownFailed, started)"
proof -
  have r: "running started"
    by (simp add: started_eq)
  have ok: "\<not> shutdown_fails (sample_web False)" and bad: "shutdown_fails (sample_web True)"
    by (simp_all add: sample_web_def)
  from C3_Stop [OF r, of "sample_web False"] ok
  have a: "Stop (sample_web False) started
             = (None, started\<lparr>running := False, server := None, port := 0\<rparr>)"
    and b: "\<not> Running (Status (snd (Stop (sample_web False) started)))"
    by blast+
  from C3_Stop [OF r, of "sample_web True"] bad
  have c: "Stop (sample_web True) started = (Some ShutdownFailed, started)"
    by blast
  from a have a': "Stop (sample_web False) started
                     = (None, \<lparr>server = None, port = 0, running = False, startedAt = 1000\<rparr>)"
    by (simp add: started_eq)
  from r a' b c show ?thesis by blast
qed

text \<open>The claim as stated fails when the shutdown times out: the server was started on
  port 6070, \<^verbatim>\<open>Stop\<close> reports the failure, and afterwards the flag and the port are
  still set, the status reports running and a start is refused.\<close>

theorem C3_Stop_counterexample:
  "running started
   \<and> fst (Stop (sample_web True) started) = Some ShutdownFailed
   \<and> running (snd (Stop (sample_web True) started))
   \<and> port (snd (Stop (sample_web True) started)) = 6070
   \<and> Running (Status (snd (Stop (sample_web True) started)))
   \<and> fst (Start (sample_web False) (snd (Stop (sample_web True) started)) 6070)
       = Inl (WebServerAlreadyRunning 6070)"
  by (simp add: started_eq Stop_def Status_def Start_def sample_web_def)

section \<open>Files-only mode\<close>

lemma resolve_cases:
  "resolve_fullPath md fm = Inl NilPointerPanic \<or> resolve_fullPath md fm = Inr (fullPath_of md fm)"
  by (simp add: resolve_fullPath_def fullPath_of_def split: option.splits)

lemma resolve_Inl_iff:
  "(resolve_fullPath md fm = Inl err) = (map_lookup md (Repository fm) = Some None \<and> err = NilPointerPanic)"
  by (auto simp: resolve_fullPath_def split: option.splits)





lemma Search_Inr_cases:
  assumes "Search e st q dir opts = Inr sr"
  shows "\<exists>q' files. zoekt_search e q' (MaxDocDisplayCount (apply_defaults opts)) = Files files
           \<and> build_output (apply_defaults opts) (loadAllMetadata st) files = Inr sr"
  using assms
  by (auto simp: Search_def Let_def split: if_splits option.splits sum.splits engine_outcome.splits)





section \<open>Totals and the "more matches" indicator\<close>

text \<open>\<open>TotalFiles\<close> is the number of files the engine returned, whatever is shown.\<close>

lemma lineMatches_loop_TotalFiles:
  "lineMatches_loop opts p lms st = Inr st' \<Longrightarrow> TotalFiles (fst st') = TotalFiles (fst st)"
proof (induction opts p lms st rule: lineMatches_loop.induct)
  case (1 opts fullPath st)
  then show ?case by simp
next
  case (2 opts fullPath lm lms sr linesAdded)
  then show ?case
    by (auto simp: Let_def split: if_splits sum.splits)
qed

lemma chunkLines_loop_TotalFiles:
  "chunkLines_loop opts p start i ls st = Inr st' \<Longrightarrow> TotalFiles (fst st') = TotalFiles (fst st)"
proof (induction opts p start i ls st rule: chunkLines_loop.induct)
  case (1 opts fullPath start i st)
  then show ?case by simp
next
  case (2 opts fullPath start i line rest sr linesAdded)
  then show ?case
    by (auto simp: Let_def split: if_splits sum.splits)
qed

lemma chunkMatches_loop_TotalFiles:
  "chunkMatches_loop opts p cs st = Inr st' \<Longrightarrow> TotalFiles (fst st') = TotalFiles (fst st)"
proof (induction cs arbitrary: st)
  case Nil
  then show ?case by simp
next
  case (Cons c cs)
  then show ?case
    by (auto split: sum.splits dest!: chunkLines_loop_TotalFiles)
qed

lemma process_file_TotalFiles:
  "process_file opts md fm sr = Inr sr' \<Longrightarrow> TotalFiles sr' = TotalFiles sr"
  by (auto simp: process_file_def split: sum.splits if_splits prod.splits
      dest!: lineMatches_loop_TotalFiles chunkMatches_loop_TotalFiles)

lemma files_loop_TotalFiles:
  "files_loop opts md fms k sr = Inr sr' \<Longrightarrow> TotalFiles sr' = TotalFiles sr"
proof (induction fms arbitrary: k sr)
  case Nil
  then show ?case by simp
next
  case (Cons fm fms)
  then show ?case
    by (auto split: if_splits sum.splits dest!: process_file_TotalFiles)
qed

lemma Search_TotalFiles:
  assumes "Search e st q dir opts = Inr sr"
  shows "\<exists>q' files. zoekt_search e q' (MaxDocDisplayCount (apply_defaults opts)) = Files files
           \<and> TotalFiles sr = int (length files)"
proof -
  from Search_Inr_cases [OF assms] obtain q' files where
    z: "zoekt_search e q' (MaxDocDisplayCount (apply_defaults opts)) = Files files"
    and b: "build_output (apply_defaults opts) (loadAllMetadata st) files = Inr sr"
    by blast
  from b have "TotalFiles sr = int (length files)"
    by (auto simp: build_output_def split: sum.splits if_splits dest!: files_loop_TotalFiles)
  with z show ?thesis by blast
qed


text \<open>
  C1, on the input of the specification: five files with ten line matches each,
  \<open>MaxFiles = 2\<close> and \<open>MaxLinesPerFile = 3\<close>. \<open>TotalFiles\<close> is 5, but \<open>TotalMatches\<close> is
  20, not 50: the matches of the three files after the cut are never counted, because
  the loop over the files is left before they are reached.
\<close>

theorem C1_totals_at_five_files:
  "Search (sample_env five_files) NoStore ''needle'' []
     \<lparr>MaxFiles = 2, MaxLinesPerFile = 3, MaxLineLength = 200, FilesOnly = False\<rparr>
   = Inr \<lparr>TotalFiles = 5, TotalMatches = 20,
       Lines =
         [''f1.go:1: needle'', ''f1.go:2: needle'', ''f1.go:3: needle'',
          ''  ... and 7 more matches in this file'',
          ''f2.go:1: needle'', ''f2.go:2: needle'', ''f2.go:3: needle'',
          ''  ... and 7 more matches in this file'',
          showing_line 2 5]\<rparr>"
  by code_simp

text \<open>For a file that the engine reports by discrete line matches the indicator is
  right: all \<open>n\<close> matches are counted, \<open>min n MaxLinesPerFile\<close> lines are rendered, and
  when \<open>n\<close> exceeds \<open>MaxLinesPerFile\<close> one line says that \<open>n - MaxLinesPerFile\<close> more
  matches exist.\<close>

lemma truncateLine_returns:
  "0 < maxLen \<Longrightarrow> \<exists>t. truncateLine s maxLen = Inr t"
  by (auto simp: truncateLine_def slice_to_def)

lemma lineMatches_loop_shape:
  assumes "0 < MaxLineLength opts"
  shows "\<exists>rendered. length rendered = min (length lms) (nat (MaxLinesPerFile opts - k))
           \<and> lineMatches_loop opts p lms (sr, k)
               = Inr (sr\<lparr>TotalMatches := TotalMatches sr + int (length lms),
                         Lines := Lines sr @ rendered\<rparr>,
                      k + int (length rendered))"
proof (induction lms arbitrary: sr k)
  case Nil
  show ?case by simp
next
  case (Cons lm lms)
  let ?sr1 = "sr\<lparr>TotalMatches := TotalMatches sr + 1\<rparr>"
  show ?case
  proof (cases "k \<ge> MaxLinesPerFile opts")
    case True
    from Cons [where sr = ?sr1 and k = k] True obtain rendered where
      "length rendered = 0"
      "lineMatches_loop opts p lms (?sr1, k)
         = Inr (?sr1\<lparr>TotalMatches := TotalMatches ?sr1 + int (length lms),
                       Lines := Lines ?sr1 @ rendered\<rparr>, k + int (length rendered))"
      by auto
    with True show ?thesis
      by (intro exI [of _ "[]"]) (simp add: add.assoc)
  next
    case False
    from truncateLine_returns [OF assms] obtain content where
      c: "truncateLine (TrimRight (Line lm) [newline, carriage_return]) (MaxLineLength opts)
            = Inr content"
      by blast
    let ?line = "match_line p (LineNumber lm) content"
    let ?sr2 = "?sr1\<lparr>Lines := Lines ?sr1 @ [?line]\<rparr>"
    from Cons [where sr = ?sr2 and k = "k + 1"] obtain rendered where
      l: "length rendered = min (length lms) (nat (MaxLinesPerFile opts - (k + 1)))"
      and r: "lineMatches_loop opts p lms (?sr2, k + 1)
         = Inr (?sr2\<lparr>TotalMatches := TotalMatches ?sr2 + int (length lms),
                       Lines := Lines ?sr2 @ rendered\<rparr>, k + 1 + int (length rendered))"
      by blast
    from False l have "length (?line # rendered) = min (length (lm # lms)) (nat (MaxLinesPerFile opts - k))"
      by (simp add: min_def) linarith
    moreover from False c r
    have "lineMatches_loop opts p (lm # lms) (sr, k)
            = Inr (sr\<lparr>TotalMatches := TotalMatches sr + int (length (lm # lms)),
                       Lines := Lines sr @ (?line # rendered)\<rparr>,
                   k + int (length (?line # rendered)))"
      by (simp add: add.assoc add.commute)
    ultimately show ?thesis by blast
  qed
qed

lemma process_file_line_matches:
  assumes "\<not> FilesOnly opts" and "0 < MaxLineLength opts" and "LineMatches fm \<noteq> []"
    and "resolve_fullPath md fm = Inr p"
  shows "\<exists>rendered.
           length rendered = min (length (LineMatches fm)) (nat (MaxLinesPerFile opts))
           \<and> process_file opts md fm sr
               = Inr (sr\<lparr>TotalMatches := TotalMatches sr + int (length (LineMatches fm)),
                         Lines := Lines sr @ rendered
                           @ (if int (length (LineMatches fm)) > MaxLinesPerFile opts
                              then [more_matches_line
                                      (int (length (LineMatches fm)) - MaxLinesPerFile opts)]
                              else [])\<rparr>)"
proof -
  from lineMatches_loop_shape [OF assms(2), of "LineMatches fm" 0 p sr]
  obtain rendered where
    l: "length rendered = min (length (LineMatches fm)) (nat (MaxLinesPerFile opts))"
    and r: "lineMatches_loop opts p (LineMatches fm) (sr, 0)
               = Inr (sr\<lparr>TotalMatches := TotalMatches sr + int (length (LineMatches fm)),
                         Lines := Lines sr @ rendered\<rparr>,
                      0 + int (length rendered))"
    by auto
  from assms(1,3,4) r
  have "process_file opts md fm sr
               = Inr (sr\<lparr>TotalMatches := TotalMatches sr + int (length (LineMatches fm)),
                         Lines := Lines sr @ rendered
                           @ (if int (length (LineMatches fm)) > MaxLinesPerFile opts
                              then [more_matches_line
                                      (int (length (LineMatches fm)) - MaxLinesPerFile opts)]
                              else [])\<rparr>)"
    by (simp add: process_file_def totalInFile_def)
  with l show ?thesis by blast
qed


text \<open>
  C6, on a file reported by one chunk of five lines, each ending in a newline, with the
  default \<open>MaxLinesPerFile = 3\<close>. The file has five matches (\<open>TotalMatches\<close> counts
  five), three are shown, and the indicator says 3 more instead of 2: \<open>totalInFile\<close>
  counts the empty piece after the last newline, which the loop over the lines skips.
\<close>

theorem C6_indicator_at_chunk_file:
  "Search (sample_env [chunk_file]) NoStore ''a'' [] DefaultSearchOptions
   = Inr \<lparr>TotalFiles = 1, TotalMatches = 5,
       Lines =
         [''a.go:10: alpha'', ''a.go:11: beta'', ''a.go:12: gamma'',
          ''  ... and 3 more matches in this file'']\<rparr>"
  by code_simp

section \<open>The JSON round trip\<close>

text \<open>A string that the encoder has written is valid, and the encoder leaves a valid
  string as it is.\<close>

lemma rune_split:
  assumes "rune_len (c # cs) = Suc n"
  shows "n \<le> length cs \<and> (\<forall>rest. rune_len (c # take n cs @ rest) = Suc n)"
  using assms
  by (auto simp: rune_len_def split: if_splits list.splits)

lemma json_bytes_append: "json_bytes (length pre) (pre @ rest) = pre @ json_bytes 0 rest"
  by (induction pre) simp_all

lemma rune_len_replacement: "rune_len (replacement @ rest) = 3"
  by (simp add: rune_len_def replacement_def second_ok_def continuation_def)

lemma json_bytes_replacement: "json_bytes 0 (replacement @ rest) = replacement @ json_bytes 0 rest"
proof -
  have "json_bytes 0 (replacement @ rest)
          = CHR 0xEF # json_bytes (Suc (Suc 0)) ([CHR 0xBF, CHR 0xBD] @ rest)"
    using rune_len_replacement [of rest] by (simp add: replacement_def numeral_3_eq_3)
  then show ?thesis by (simp add: replacement_def)
qed

lemma json_bytes_idem: "json_bytes 0 (json_bytes 0 s) = json_bytes 0 s"
proof (induction s rule: length_induct)
  case (1 s)
  show ?case
  proof (cases s)
    case Nil
    then show ?thesis by simp
  next
    case (Cons c cs)
    show ?thesis
    proof (cases "rune_len (c # cs)")
      case 0
      with Cons have "json_bytes 0 s = replacement @ json_bytes 0 cs" by simp
      moreover from Cons 1 have "json_bytes 0 (json_bytes 0 cs) = json_bytes 0 cs" by simp
      ultimately show ?thesis by (simp add: json_bytes_replacement)
    next
      case (Suc n)
      from rune_split [OF Suc] have n: "n \<le> length cs"
        and r: "\<And>rest. rune_len (c # take n cs @ rest) = Suc n" by blast+
      let ?pre = "take n cs" and ?rest = "drop n cs"
      from n have len: "length ?pre = n" by simp
      have cs: "cs = ?pre @ ?rest" by simp
      from Cons Suc have "json_bytes 0 s = c # json_bytes n cs" by simp
      also have "json_bytes n cs = ?pre @ json_bytes 0 ?rest"
        using json_bytes_append [of ?pre ?rest] len by simp
      finally have 2: "json_bytes 0 s = c # ?pre @ json_bytes 0 ?rest" .
      from Cons 1 have ih: "json_bytes 0 (json_bytes 0 ?rest) = json_bytes 0 ?rest" by simp
      have "json_bytes 0 (c # ?pre @ json_bytes 0 ?rest)
              = c # json_bytes n (?pre @ json_bytes 0 ?rest)"
        using r [of "json_bytes 0 ?rest"] by simp
      also have "json_bytes n (?pre @ json_bytes 0 ?rest) = ?pre @ json_bytes 0 (json_bytes 0 ?rest)"
        using json_bytes_append [of ?pre "json_bytes 0 ?rest"] len by simp
      finally show ?thesis using 2 ih by simp
    qed
  qed
qed


lemma json_string_idem: "json_string (json_string s) = json_string s"
  by (simp add: json_string_def json_bytes_idem)

lemma json_record_idem: "json_record (json_record v) = json_record v"
  by (cases v) (simp_all add: json_record_def json_string_idem)

lemma json_member_idem: "json_member (json_member x) = json_member x"
  by (simp add: json_member_def json_string_idem json_record_idem)

lemma json_roundtrip_GoMap: "json_roundtrip (GoMap xs) = GoMap (rev (json_members xs))"
  by (simp add: json_roundtrip_def MarshalIndent_def Unmarshal_def json_members_def
      json_member_idem)

lemma json_roundtrip_NilMap: "json_roundtrip NilMap = NilMap"
  by (simp add: json_roundtrip_def MarshalIndent_def Unmarshal_def)

text \<open>The records that are read back from a document: their keys are the keys of the
  map that was written, as JSON strings; and when those keys are valid, each key is read
  back with its own record.\<close>

lemma map_lookup_GoMap: "map_lookup (GoMap xs) k = map_of xs k"
  by (simp add: map_lookup_def)

lemma map_lookup_delete:
  "map_lookup (map_delete m k) k' = (if k' = k then None else map_lookup m k')"
  by (cases m) (simp_all add: map_lookup_def map_delete_def delete_conv)


lemma distinct_insort_key_fst:
  "distinct (map fst (insort_key fst x xs)) \<longleftrightarrow> fst x \<notin> fst ` set xs \<and> distinct (map fst xs)"
  by (induction xs) (auto simp: set_insort_key)

lemma distinct_sort_key_fst: "distinct (map fst (sort_key fst xs)) = distinct (map fst xs)"
  by (induction xs) (simp_all add: distinct_insort_key_fst)

lemma map_of_sort_key: "distinct (map fst xs) \<Longrightarrow> map_of (sort_key fst xs) = map_of xs"
  by (simp add: map_of_inject_set distinct_sort_key_fst)

lemma map_of_rev_distinct: "distinct (map fst xs) \<Longrightarrow> map_of (rev xs) = map_of xs"
  by (simp add: map_of_inject_set rev_map [symmetric])



lemma Unmarshal_key: "map_lookup (Unmarshal doc) k \<noteq> None \<Longrightarrow> json_string k = k"
proof (cases doc)
  case JsonNull
  assume "map_lookup (Unmarshal doc) k \<noteq> None"
  with JsonNull show ?thesis by (simp add: Unmarshal_def map_lookup_def)
next
  case (JsonObject ms)
  assume "map_lookup (Unmarshal doc) k \<noteq> None"
  with JsonObject obtain v where "(k, v) \<in> set (map json_member ms)"
    by (auto simp: Unmarshal_def map_lookup_def dest: map_of_SomeD)
  then show ?thesis
    by (auto simp: json_member_def json_string_idem)
qed

lemma Unmarshal_record: "map_lookup (Unmarshal doc) k = Some v \<Longrightarrow> json_record v = v"
proof (cases doc)
  case JsonNull
  assume "map_lookup (Unmarshal doc) k = Some v"
  with JsonNull show ?thesis by (simp add: Unmarshal_def map_lookup_def)
next
  case (JsonObject ms)
  assume "map_lookup (Unmarshal doc) k = Some v"
  with JsonObject have "(k, v) \<in> set (map json_member ms)"
    by (auto simp: Unmarshal_def map_lookup_def dest: map_of_SomeD)
  then show ?thesis
    by (auto simp: json_member_def json_record_idem)
qed

lemma roundtrip_lookup:
  assumes "\<forall>k'. map_lookup m k' \<noteq> None \<longrightarrow> json_string k' = k'"
  shows "map_lookup (json_roundtrip m) k = map_option json_record (map_lookup m k)"
proof (cases m)
  case NilMap
  then show ?thesis by (simp add: json_roundtrip_NilMap map_lookup_def)
next
  case (GoMap xs)
  let ?ys = "AList.clearjunk xs"
  let ?zs = "sort_key fst ?ys"
  have d: "distinct (map fst ?zs)"
    by (simp add: distinct_sort_key_fst)
  have "json_string (fst x) = fst x" if "x \<in> set ?zs" for x
  proof -
    from that have "fst x \<in> fst ` set ?ys" by auto
    then have "fst x \<in> dom (map_of xs)"
      using dom_map_of_conv_image_fst [of ?ys] by (simp add: map_of_clearjunk)
    with assms GoMap show ?thesis by (auto simp: map_lookup_def)
  qed
  then have m: "json_members xs = map (\<lambda>(k, v). (k, json_record v)) ?zs"
    unfolding json_members_def by (intro map_cong) (auto simp: json_member_def)
  have "map fst (json_members xs) = map fst ?zs"
    unfolding m by (simp add: case_prod_beta comp_def)
  with d have "map_of (rev (json_members xs)) = map_of (json_members xs)"
    by (simp add: map_of_rev_distinct)
  also have "\<dots> = map_option json_record \<circ> map_of ?zs"
    unfolding m by (rule map_of_map)
  also have "map_of ?zs = map_of xs"
    by (simp add: map_of_sort_key distinct_clearjunk map_of_clearjunk)
  finally show ?thesis using GoMap by (simp add: json_roundtrip_GoMap map_lookup_def)
qed

lemma load_key: "map_lookup (loadAllMetadata st) k \<noteq> None \<Longrightarrow> json_string k = k"
  by (auto simp: loadAllMetadata_def Unmarshal_key map_lookup_GoMap
      split: index_store.splits option.splits file_data.splits)

lemma load_record: "map_lookup (loadAllMetadata st) k = Some v \<Longrightarrow> json_record v = v"
  by (auto simp: loadAllMetadata_def Unmarshal_record map_lookup_GoMap
      split: index_store.splits option.splits file_data.splits)

section \<open>The frame of \<^verbatim>\<open>deleteIndexFiles\<close>\<close>

lemma remove_loop_frame:
  "remove_loop e p es = (r, es') \<Longrightarrow>
     filter (\<lambda>x. \<not> is_index_file p x) es' = filter (\<lambda>x. \<not> is_index_file p x) es
     \<and> set es' \<subseteq> set es
     \<and> (r = None \<longrightarrow> es' = filter (\<lambda>x. \<not> is_index_file p x) es)"
proof (induction es arbitrary: r es')
  case Nil
  then show ?case by simp
next
  case (Cons entry es)
  show ?case
  proof (cases "is_index_file p entry")
    case True
    show ?thesis
    proof (cases "remove_fails e (fst entry)")
      case True
      with \<open>is_index_file p entry\<close> Cons.prems show ?thesis by auto
    next
      case False
      with \<open>is_index_file p entry\<close> Cons.prems
      have "remove_loop e p es = (r, es')" by simp
      from Cons.IH [OF this] \<open>is_index_file p entry\<close> show ?thesis by auto
    qed
  next
    case False
    obtain r0 es0 where l: "remove_loop e p es = (r0, es0)"
      by (cases "remove_loop e p es")
    with False Cons.prems have "r = r0" "es' = entry # es0" by simp_all
    with Cons.IH [OF l] False show ?thesis by auto
  qed
qed

lemma deleteIndexFiles_StoreDir:
  assumes "deleteIndexFiles e (StoreDir es) sourceDir = (r, st')"
  shows "\<exists>es'. st' = StoreDir es'
           \<and> set es' \<subseteq> set es
           \<and> filter (\<lambda>x. \<not> is_index_file (getIndexPrefix e sourceDir) x) es'
               = filter (\<lambda>x. \<not> is_index_file (getIndexPrefix e sourceDir) x) es
           \<and> (\<forall>n d. (n, d) \<in> set es \<and> (n, d) \<notin> set es' \<longrightarrow>
                  \<not> IsDir d \<and> HasPrefix n (getIndexPrefix e sourceDir) \<and> HasSuffix n ''.zoekt'')
           \<and> (\<forall>d. (metadata_name, d) \<in> set es \<longrightarrow> (metadata_name, d) \<in> set es')
           \<and> (\<forall>n d. \<not> HasPrefix n (getIndexPrefix e sourceDir) \<and> (n, d) \<in> set es
                  \<longrightarrow> (n, d) \<in> set es')
           \<and> (r = None \<longrightarrow>
                  es' = filter (\<lambda>x. \<not> is_index_file (getIndexPrefix e sourceDir) x) es)"
proof -
  let ?p = "getIndexPrefix e sourceDir"
  let ?keep = "\<lambda>x. \<not> is_index_file ?p x"
  obtain es' where st': "st' = StoreDir es'"
    and sub: "set es' \<subseteq> set es"
    and keep: "filter ?keep es' = filter ?keep es"
    and all: "r = None \<longrightarrow> es' = filter ?keep es"
  proof (cases "readDir_fails e")
    case True
    with assms have "st' = StoreDir es" "r \<noteq> None"
      by (auto simp: deleteIndexFiles_def)
    then show ?thesis using that [of es] by auto
  next
    case False
    obtain r0 es0 where l: "remove_loop e ?p es = (r0, es0)"
      by (cases "remove_loop e ?p es")
    with False assms have "st' = StoreDir es0" "r = r0"
      by (simp_all add: deleteIndexFiles_def)
    with remove_loop_frame [OF l] show ?thesis using that [of es0] by simp
  qed
  have gone: "\<not> IsDir d \<and> HasPrefix n ?p \<and> HasSuffix n ''.zoekt''"
    if "(n, d) \<in> set es" "(n, d) \<notin> set es'" for n d
  proof (rule ccontr)
    assume "\<not> (\<not> IsDir d \<and> HasPrefix n ?p \<and> HasSuffix n ''.zoekt'')"
    then have "?keep (n, d)" by (simp add: is_index_file_def)
    with that(1) have "(n, d) \<in> set (filter ?keep es)" by simp
    with keep have "(n, d) \<in> set (filter ?keep es')" by simp
    with that(2) show False by simp
  qed
  have "\<not> HasSuffix metadata_name ''.zoekt''"
    by (simp add: HasSuffix_def metadata_name_def)
  with gone have meta: "(metadata_name, d) \<in> set es'" if "(metadata_name, d) \<in> set es" for d
    using that by blast
  from gone have other: "(n, d) \<in> set es'"
    if "\<not> HasPrefix n ?p" "(n, d) \<in> set es" for n d
    using that by blast
  from st' sub keep all gone meta other show ?thesis by blast
qed


lemma IsDir_iff: "\<not> IsDir d \<longleftrightarrow> (\<exists>f. d = RegularFile f) \<or> (\<exists>t. d = Symlink t)"
  by (cases d) simp_all

lemma HasPrefix_both:
  "HasPrefix n k \<Longrightarrow> HasPrefix n p \<Longrightarrow> HasPrefix k p \<or> HasPrefix p k"
proof -
  assume k: "HasPrefix n k" and p: "HasPrefix n p"
  show ?thesis
  proof (cases "length k \<le> length p")
    case True
    from p have "take (length k) p = take (length k) (take (length p) n)"
      by (simp add: HasPrefix_def)
    also from True have "\<dots> = take (length k) n" by (simp add: min_def)
    also from k have "\<dots> = k" by (simp add: HasPrefix_def)
    finally show ?thesis by (simp add: HasPrefix_def)
  next
    case False
    from k have "take (length p) k = take (length p) (take (length k) n)"
      by (simp add: HasPrefix_def)
    also from False have "\<dots> = take (length p) n" by (simp add: min_def)
    also from p have "\<dots> = p" by (simp add: HasPrefix_def)
    finally show ?thesis by (simp add: HasPrefix_def)
  qed
qed

lemma prefix_free_other:
  "prefix_free k p \<Longrightarrow> HasPrefix n k \<Longrightarrow> \<not> HasPrefix n p"
  using HasPrefix_both [of n k p] by (auto simp: prefix_free_def)

text \<open>
  C10 (as amended). Whatever \<^verbatim>\<open>deleteIndexFiles\<close> returns, the storage directory
  afterwards holds a part of the entries it held before, none of them changed; an entry
  that is gone was not a directory (it was a regular file or a symbolic link), and its
  name starts with the identifier prefix of the directory and ends in \<^verbatim>\<open>.zoekt\<close>;
  every other entry is still there, in the same order: \<^verbatim>\<open>metadata.json\<close>, every
  subdirectory, and every entry whose name starts with another identifier, provided that
  neither of the two identifiers is a prefix of the other; and when no error is
  returned, all entries of that prefix and suffix that are not directories are gone. A
  storage root that is missing or not a directory is left as it is.
\<close>

theorem C10_deleteIndexFiles_frame:
  assumes "deleteIndexFiles e st sourceDir = (r, st')"
  shows "case st of
           StoreDir es \<Rightarrow>
             (\<exists>es'. st' = StoreDir es'
                \<and> set es' \<subseteq> set es
                \<and> filter (\<lambda>x. \<not> is_index_file (getIndexPrefix e sourceDir) x) es'
                    = filter (\<lambda>x. \<not> is_index_file (getIndexPrefix e sourceDir) x) es
                \<and> (\<forall>n d. (n, d) \<in> set es \<and> (n, d) \<notin> set es' \<longrightarrow>
                       ((\<exists>f. d = RegularFile f) \<or> (\<exists>t. d = Symlink t))
                       \<and> HasPrefix n (getIndexPrefix e sourceDir)
                       \<and> HasSuffix n ''.zoekt'')
                \<and> (\<forall>d. (metadata_name, d) \<in> set es \<longrightarrow> (metadata_name, d) \<in> set es')
                \<and> (\<forall>n. (n, SubDir) \<in> set es \<longrightarrow> (n, SubDir) \<in> set es')
                \<and> (\<forall>k n d. prefix_free k (getIndexPrefix e sourceDir) \<and> HasPrefix n k
                         \<and> (n, d) \<in> set es \<longrightarrow> (n, d) \<in> set es')
                \<and> (r = None \<longrightarrow>
                       es' = filter (\<lambda>x. \<not> is_index_file (getIndexPrefix e sourceDir) x) es))
         | _ \<Rightarrow> st' = st"
proof (cases st)
  case NoStore
  with assms show ?thesis by (simp add: deleteIndexFiles_def)
next
  case StoreNotDir
  with assms show ?thesis by (simp add: deleteIndexFiles_def)
next
  case (StoreDir es)
  let ?p = "getIndexPrefix e sourceDir"
  from assms StoreDir deleteIndexFiles_StoreDir [of e es sourceDir r st']
  obtain es' where st': "st' = StoreDir es'"
    and sub: "set es' \<subseteq> set es"
    and keep: "filter (\<lambda>x. \<not> is_index_file ?p x) es' = filter (\<lambda>x. \<not> is_index_file ?p x) es"
    and gone: "\<forall>n d. (n, d) \<in> set es \<and> (n, d) \<notin> set es' \<longrightarrow>
                  \<not> IsDir d \<and> HasPrefix n ?p \<and> HasSuffix n ''.zoekt''"
    and meta: "\<forall>d. (metadata_name, d) \<in> set es \<longrightarrow> (metadata_name, d) \<in> set es'"
    and other: "\<forall>n d. \<not> HasPrefix n ?p \<and> (n, d) \<in> set es \<longrightarrow> (n, d) \<in> set es'"
    and all: "r = None \<longrightarrow> es' = filter (\<lambda>x. \<not> is_index_file ?p x) es"
    by blast
  from gone have gone': "\<forall>n d. (n, d) \<in> set es \<and> (n, d) \<notin> set es' \<longrightarrow>
                       ((\<exists>f. d = RegularFile f) \<or> (\<exists>t. d = Symlink t))
                       \<and> HasPrefix n ?p \<and> HasSuffix n ''.zoekt''"
    by (simp add: IsDir_iff)
  from gone have dirs: "\<forall>n. (n, SubDir) \<in> set es \<longrightarrow> (n, SubDir) \<in> set es'"
    by fastforce
  from other have apart: "\<forall>k n d. prefix_free k ?p \<and> HasPrefix n k \<and> (n, d) \<in> set es
                            \<longrightarrow> (n, d) \<in> set es'"
    using prefix_free_other by blast
  from st' sub keep gone' meta dirs apart all StoreDir show ?thesis
    by simp
qed

lemma sample_prefix:
  "getIndexPrefix (sample_env files) ''/home/u/proj'' = ''proj_9c09f8055a26c277''"
  "getIndexPrefix (sample_env files) ''/srv/app'' = ''app_dae668e4084f07b6''"
  "getIndexPrefix (sample_env files) ''/home/u/proj_9c09f8055a26c277_v2''
     = ''proj_9c09f8055a26c277_v2_14834d161af29bc9''"
  by (simp_all add: getIndexPrefix_def sample_env_def sample_digest_def Base_def slash_def
      ReplaceAllByte_def cafe_path_def)

lemma sample_delete:
  "deleteIndexFiles (sample_env []) (StoreDir sample_entries) ''/home/u/proj''
     = (None, StoreDir
         [(''app_dae668e4084f07b6_v16.00000.zoekt'', RegularFile (ShardData True)),
          (''metadata.json'', RegularFile (MetadataDoc proj_record)),
          (''proj_9c09f8055a26c277_old.zoekt'', SubDir),
          (''proj_9c09f8055a26c277_v16.log'', RegularFile OtherData)])"
  by (simp add: deleteIndexFiles_def sample_prefix sample_entries_def is_index_file_def
      HasPrefix_def HasSuffix_def)
     (simp add: sample_env_def)

text \<open>The theorem at the sample directory: the shard of \<^verbatim>\<open>/home/u/proj\<close> is removed,
  and \<^verbatim>\<open>metadata.json\<close>, the subdirectory and the shard of \<^verbatim>\<open>/srv/app\<close>, whose
  identifier is told apart from that of \<^verbatim>\<open>/home/u/proj\<close>, are kept.\<close>

theorem C10_deleteIndexFiles_frame_witness:
  "deleteIndexFiles (sample_env []) (StoreDir sample_entries) ''/home/u/proj''
     = (None, StoreDir
         [(''app_dae668e4084f07b6_v16.00000.zoekt'', RegularFile (ShardData True)),
          (''metadata.json'', RegularFile (MetadataDoc proj_record)),
          (''proj_9c09f8055a26c277_old.zoekt'', SubDir),
          (''proj_9c09f8055a26c277_v16.log'', RegularFile OtherData)])
   \<and> prefix_free ''app_dae668e4084f07b6'' (getIndexPrefix (sample_env []) ''/home/u/proj'')
   \<and> HasPrefix ''app_dae668e4084f07b6_v16.00000.zoekt'' ''app_dae668e4084f07b6''
   \<and> (''app_dae668e4084f07b6_v16.00000.zoekt'', RegularFile (ShardData True))
        \<in> set sample_entries
   \<and> (''proj_9c09f8055a26c277_old.zoekt'', SubDir) \<in> set sample_entries
   \<and> (''metadata.json'', RegularFile (MetadataDoc proj_record)) \<in> set sample_entries
   \<and> {(''app_dae668e4084f07b6_v16.00000.zoekt'', RegularFile (ShardData True)),
       (''proj_9c09f8055a26c277_old.zoekt'', SubDir),
       (''metadata.json'', RegularFile (MetadataDoc proj_record))}
        \<subseteq> set [(''app_dae668e4084f07b6_v16.00000.zoekt'', RegularFile (ShardData True)),
          (''metadata.json'', RegularFile (MetadataDoc proj_record)),
          (''proj_9c09f8055a26c277_old.zoekt'', SubDir),
          (''proj_9c09f8055a26c277_v16.log'', RegularFile OtherData)]"
proof -
  let ?left = "[(''app_dae668e4084f07b6_v16.00000.zoekt'', RegularFile (ShardData True)),
          (''metadata.json'', RegularFile (MetadataDoc proj_record)),
          (''proj_9c09f8055a26c277_old.zoekt'', SubDir),
          (''proj_9c09f8055a26c277_v16.log'', RegularFile OtherData)]"
  let ?p = "getIndexPrefix (sample_env []) ''/home/u/proj''"
  have pf: "prefix_free ''app_dae668e4084f07b6'' ?p"
    by (simp add: sample_prefix prefix_free_def HasPrefix_def)
  have hp: "HasPrefix ''app_dae668e4084f07b6_v16.00000.zoekt'' ''app_dae668e4084f07b6''"
    by (simp add: HasPrefix_def)
  have e1: "(''app_dae668e4084f07b6_v16.00000.zoekt'', RegularFile (ShardData True))
              \<in> set sample_entries"
    and e2: "(''proj_9c09f8055a26c277_old.zoekt'', SubDir) \<in> set sample_entries"
    and e3: "(metadata_name, RegularFile (MetadataDoc proj_record)) \<in> set sample_entries"
    by (simp_all add: sample_entries_def metadata_name_def)
  from C10_deleteIndexFiles_frame [OF sample_delete]
  obtain es' where "StoreDir ?left = StoreDir es'"
    and "\<forall>d. (metadata_name, d) \<in> set sample_entries \<longrightarrow> (metadata_name, d) \<in> set es'"
    and "\<forall>n. (n, SubDir) \<in> set sample_entries \<longrightarrow> (n, SubDir) \<in> set es'"
    and "\<forall>k n d. prefix_free k ?p \<and> HasPrefix n k \<and> (n, d) \<in> set sample_entries
           \<longrightarrow> (n, d) \<in> set es'"
    unfolding index_store.case by blast
  then have left: "es' = ?left"
    and meta: "\<forall>d. (metadata_name, d) \<in> set sample_entries \<longrightarrow> (metadata_name, d) \<in> set es'"
    and dirs: "\<forall>n. (n, SubDir) \<in> set sample_entries \<longrightarrow> (n, SubDir) \<in> set es'"
    and apart: "\<forall>k n d. prefix_free k ?p \<and> HasPrefix n k \<and> (n, d) \<in> set sample_entries
           \<longrightarrow> (n, d) \<in> set es'"
    by (simp_all only: index_store.inject)
  from apart pf hp e1
  have "(''app_dae668e4084f07b6_v16.00000.zoekt'', RegularFile (ShardData True)) \<in> set es'"
    by blast
  moreover from dirs e2 have "(''proj_9c09f8055a26c277_old.zoekt'', SubDir) \<in> set es'"
    by blast
  moreover from meta e3 have "(metadata_name, RegularFile (MetadataDoc proj_record)) \<in> set es'"
    by blast
  ultimately have "{(''app_dae668e4084f07b6_v16.00000.zoekt'', RegularFile (ShardData True)),
       (''proj_9c09f8055a26c277_old.zoekt'', SubDir),
       (''metadata.json'', RegularFile (MetadataDoc proj_record))} \<subseteq> set ?left"
    unfolding left metadata_name_def by blast
  with sample_delete pf hp e1 e2 e3 show ?thesis
    unfolding metadata_name_def by blast
qed

text \<open>The claim as stated fails twice in one call. \<^verbatim>\<open>deleteIndexFiles\<close> for
  \<^verbatim>\<open>/home/u/proj\<close> removes the shard of \<^verbatim>\<open>/home/u/proj_9c09f8055a26c277_v2\<close>, an
  artifact of another identifier, because that identifier starts with the one of
  \<^verbatim>\<open>/home/u/proj\<close>; and it removes a symbolic link, which is not a regular file.\<close>

theorem C10_deleteIndexFiles_frame_counterexample:
  "getIndexPrefix (sample_env []) ''/home/u/proj'' = ''proj_9c09f8055a26c277''
   \<and> getIndexPrefix (sample_env []) ''/home/u/proj_9c09f8055a26c277_v2''
       = ''proj_9c09f8055a26c277_v2_14834d161af29bc9''
   \<and> extending_entries
       = [(''proj_9c09f8055a26c277_v16.00000.zoekt'', RegularFile (ShardData True)),
          (''proj_9c09f8055a26c277_v16.00001.zoekt'', Symlink Dangling),
          (''proj_9c09f8055a26c277_v2_14834d161af29bc9_v16.00000.zoekt'',
           RegularFile (ShardData True))]
   \<and> has_artifact (StoreDir extending_entries) ''proj_9c09f8055a26c277_v2_14834d161af29bc9''
   \<and> deleteIndexFiles (sample_env []) (StoreDir extending_entries) ''/home/u/proj''
       = (None, StoreDir [])
   \<and> \<not> has_artifact (StoreDir []) ''proj_9c09f8055a26c277_v2_14834d161af29bc9''"
  by (simp add: sample_prefix deleteIndexFiles_def extending_entries_def is_index_file_def
      HasPrefix_def HasSuffix_def has_artifact_def is_artifact_of_def)
     (simp add: sample_env_def)

section \<open>Deleting the index of a directory that has none\<close>

text \<open>
  C4, where the index storage root does not exist yet. Whatever the directory,
  \<^verbatim>\<open>DeleteIndex\<close> does not succeed: \<^verbatim>\<open>deleteIndexFiles\<close> takes the missing root for
  "nothing to delete", and then \<^verbatim>\<open>saveAllMetadata\<close> fails to create
  \<^verbatim>\<open>metadata.json\<close> in a directory that is not there.
\<close>

theorem C4_delete_without_storage_root:
  "filepath_Abs e dir = Some absPath \<Longrightarrow>
     DeleteIndex e NoStore dir = (Some WriteFileFailed, NoStore)"
  by (simp add: DeleteIndex_def deleteIndexFiles_def saveAllMetadata_def)

theorem C4_delete_without_storage_root_witness:
  "filepath_Abs (sample_env []) ''/home/u/proj'' = Some ''/home/u/proj''
   \<and> DeleteIndex (sample_env []) NoStore ''/home/u/proj'' = (Some WriteFileFailed, NoStore)"
proof -
  have a: "filepath_Abs (sample_env []) ''/home/u/proj'' = Some ''/home/u/proj''"
    by (simp add: sample_env_def)
  from a C4_delete_without_storage_root [OF a] show ?thesis by blast
qed

text \<open>Where the storage root exists, the rest of the claim holds: for a directory
  with no shard and no record, with the metadata file writable, \<^verbatim>\<open>DeleteIndex\<close>
  succeeds, removes nothing, rewrites the metadata document (creating it if it was
  missing) and leaves the map it decodes to as it was.\<close>

lemma map_of_put_entry: "map_of (put_entry n d es) n = Some d"
  by (induction es) auto

lemma remove_loop_nothing:
  "\<forall>x \<in> set es. \<not> is_index_file p x \<Longrightarrow> remove_loop e p es = (None, es)"
  by (induction es) auto

lemma map_delete_absent:
  "map_lookup m k = None \<Longrightarrow> map_lookup (map_delete m k) k' = map_lookup m k'"
  by (simp add: map_lookup_delete)

lemma read_open_entry: "open_entry x = Some written \<Longrightarrow> read_entry (Some (written d)) = Some d"
  by (cases x rule: open_entry.cases) auto

lemma DeleteIndex_unindexed:
  assumes "filepath_Abs e dir = Some absPath"
    and "\<forall>x \<in> set es. \<not> is_index_file (getIndexPrefix e absPath) x"
    and "map_lookup (loadAllMetadata (StoreDir es)) (getIndexPrefix e absPath) = None"
    and "\<not> readDir_fails e" and "writeFile e = WriteOk"
    and "open_entry (map_of es metadata_name) = Some written"
  shows "DeleteIndex e (StoreDir es) dir
           = (None, StoreDir (put_entry metadata_name
                (written (MetadataDoc (MarshalIndent (map_delete (loadAllMetadata (StoreDir es))
                   (getIndexPrefix e absPath))))) es))"
    and "map_lookup (loadAllMetadata (snd (DeleteIndex e (StoreDir es) dir))) k
           = map_lookup (loadAllMetadata (StoreDir es)) k"
proof -
  let ?m = "map_delete (loadAllMetadata (StoreDir es)) (getIndexPrefix e absPath)"
  from assms(2,4) have d: "deleteIndexFiles e (StoreDir es) absPath = (None, StoreDir es)"
    by (simp add: deleteIndexFiles_def remove_loop_nothing)
  with assms(1,5,6)
  show 1: "DeleteIndex e (StoreDir es) dir
           = (None, StoreDir (put_entry metadata_name
                (written (MetadataDoc (MarshalIndent ?m))) es))"
    by (simp add: DeleteIndex_def saveAllMetadata_def)
  have same: "map_lookup ?m k' = map_lookup (loadAllMetadata (StoreDir es)) k'" for k'
    using assms(3) by (rule map_delete_absent)
  have "loadAllMetadata (snd (DeleteIndex e (StoreDir es) dir)) = json_roundtrip ?m"
    unfolding 1 using read_open_entry [OF assms(6)]
    by (simp add: loadAllMetadata_def map_of_put_entry json_roundtrip_def)
  moreover have "map_lookup (json_roundtrip ?m) k = map_option json_record (map_lookup ?m k)"
    by (intro roundtrip_lookup) (simp add: same load_key)
  moreover have "map_option json_record (map_lookup (loadAllMetadata (StoreDir es)) k)
                   = map_lookup (loadAllMetadata (StoreDir es)) k"
    by (cases "map_lookup (loadAllMetadata (StoreDir es)) k") (simp_all add: load_record)
  ultimately show "map_lookup (loadAllMetadata (snd (DeleteIndex e (StoreDir es) dir))) k
           = map_lookup (loadAllMetadata (StoreDir es)) k"
    by (simp add: same)
qed

section \<open>Ingestion\<close>

lemma admissible_path:
  "admissible e ns p c \<Longrightarrow>
     p \<noteq> [] \<and> (\<forall>d \<in> set (butlast p). \<not> HasPrefix d ''.'' \<and> \<not> isSkippedDir d)
     \<and> \<not> HasPrefix (last p) ''.'' \<and> CHR 0x00 \<notin> set (take 8192 c)"
  by (induction rule: admissible.induct) (auto simp: isBinaryContent_def)

lemma walkFn_file:
  "walkFn e base rel (VisitFile read) docs = (r, docs') \<Longrightarrow>
     r \<noteq> WalkSkipDir \<and>
     (docs' = docs \<or>
      (\<exists>c. read = Some c \<and> \<not> HasPrefix base ''.'' \<and> \<not> isBinaryFile e base
            \<and> \<not> isBinaryContent c \<and> r = WalkNil
            \<and> docs' = docs @ [\<lparr>Name = join_elems rel, Content = c\<rparr>]))"
  by (auto simp: walkFn_def Let_def split: if_splits option.splits)

lemma walk_sound:
  "walk e base rel node docs = (r, docs') \<Longrightarrow>
     \<exists>new. docs' = docs @ new \<and>
       (\<forall>doc \<in> set new.
          (case node of
             FileNode n read \<Rightarrow>
               (\<exists>c. read = Some c \<and> \<not> HasPrefix base ''.'' \<and> \<not> isBinaryFile e base
                     \<and> \<not> isBinaryContent c
                     \<and> doc = \<lparr>Name = join_elems rel, Content = c\<rparr>)
           | DirNode n readable ms \<Rightarrow>
               \<not> HasPrefix base ''.'' \<and> \<not> isSkippedDir base
               \<and> (\<exists>p c. admissible e ms p c
                          \<and> doc = \<lparr>Name = join_elems (rel @ p), Content = c\<rparr>)
           | LstatFails n \<Rightarrow> False))"
  and walk_names_sound:
  "walk_names e rel ns docs = (r, docs') \<Longrightarrow>
     \<exists>new. docs' = docs @ new \<and>
       (\<forall>doc \<in> set new. \<exists>p c. admissible e ns p c
                          \<and> doc = \<lparr>Name = join_elems (rel @ p), Content = c\<rparr>)"
proof (induction e base rel node docs and e rel ns docs arbitrary: r docs' and r docs'
       rule: walk_walk_names.induct)
  case (1 e base rel n c docs)
  then have "walkFn e base rel (VisitFile c) docs = (r, docs')" by simp
  from walkFn_file [OF this] show ?case by auto
next
  case (2 e base rel n readable ns docs)
  show ?case
  proof (cases "readable \<and> \<not> HasPrefix base ''.'' \<and> \<not> isSkippedDir base")
    case False
    with "2.prems" have "docs' = docs"
      by (auto simp: walkFn_def split: if_splits)
    then show ?thesis by simp
  next
    case True
    then have v: "walkFn e base rel VisitDir docs = (WalkNil, docs)"
      by (simp add: walkFn_def)
    with True "2.prems" have w: "walk_names e rel ns docs = (r, docs')"
      by simp
    from True v have "\<exists>new. docs' = docs @ new \<and>
       (\<forall>doc \<in> set new. \<exists>p c. admissible e ns p c
                          \<and> doc = \<lparr>Name = join_elems (rel @ p), Content = c\<rparr>)"
      by (intro "2.IH" [OF _ _ _ w]) (simp_all)
    with True show ?thesis by auto
  qed
next
  case (3 e base rel n docs)
  then show ?case by (simp add: walkFn_def)
next
  case (4 e rel docs)
  then show ?case by simp
next
  case (5 e rel n ns docs)
  obtain r1 d1 where w1: "walk e (node_name n) (rel @ [node_name n]) n docs = (r1, d1)"
    by (cases "walk e (node_name n) (rel @ [node_name n]) n docs")
  from "5.IH"(1) [OF w1] obtain new1 where
    d1: "d1 = docs @ new1" and
    n1: "\<forall>doc \<in> set new1.
          (case n of
             FileNode m read \<Rightarrow>
               (\<exists>c. read = Some c \<and> \<not> HasPrefix (node_name n) ''.'' \<and> \<not> isBinaryFile e (node_name n)
                     \<and> \<not> isBinaryContent c
                     \<and> doc = \<lparr>Name = join_elems (rel @ [node_name n]), Content = c\<rparr>)
           | DirNode m readable ms \<Rightarrow>
               \<not> HasPrefix (node_name n) ''.'' \<and> \<not> isSkippedDir (node_name n)
               \<and> (\<exists>p c. admissible e ms p c
                          \<and> doc = \<lparr>Name = join_elems ((rel @ [node_name n]) @ p), Content = c\<rparr>)
           | LstatFails m \<Rightarrow> False)"
    by blast
  have a1: "\<exists>p c. admissible e (n # ns) p c
                          \<and> doc = \<lparr>Name = join_elems (rel @ p), Content = c\<rparr>"
    if "doc \<in> set new1" for doc
  proof (cases n)
    case (FileNode m read)
    with n1 that obtain c where "read = Some c" "\<not> HasPrefix m ''.''" "\<not> isBinaryFile e m"
      "\<not> isBinaryContent c" "doc = \<lparr>Name = join_elems (rel @ [m]), Content = c\<rparr>"
      by auto
    with FileNode have "admissible e (n # ns) [m] c"
      by (intro admissible_file) simp_all
    with \<open>doc = _\<close> show ?thesis by blast
  next
    case (DirNode m readable ms)
    with n1 that obtain p c where "\<not> HasPrefix m ''.''" "\<not> isSkippedDir m"
      "admissible e ms p c" "doc = \<lparr>Name = join_elems ((rel @ [m]) @ p), Content = c\<rparr>"
      by auto
    with DirNode have "admissible e (n # ns) (m # p) c"
      by (intro admissible_dir [where readable = readable and ms = ms]) simp_all
    with \<open>doc = _\<close> show ?thesis by auto
  next
    case (LstatFails m)
    with n1 that show ?thesis by auto
  qed
  show ?case
  proof (cases "r1 = WalkNil \<or> (r1 = WalkSkipDir \<and> node_is_dir n)")
    case False
    with "5.prems" w1 have "docs' = d1"
      by (cases r1) (auto split: if_splits)
    with d1 a1 show ?thesis by auto
  next
    case True
    with "5.prems" w1 have w2: "walk_names e rel ns d1 = (r, docs')"
      by (cases r1) (auto split: if_splits)
    have "\<exists>new. docs' = d1 @ new \<and>
       (\<forall>doc \<in> set new. \<exists>p c. admissible e ns p c
                          \<and> doc = \<lparr>Name = join_elems (rel @ p), Content = c\<rparr>)"
    proof (cases r1)
      case WalkNil
      from "5.IH"(2) [OF w1 [symmetric] WalkNil w2] show ?thesis .
    next
      case WalkSkipDir
      with True have "node_is_dir n" by simp
      from "5.IH"(3) [OF w1 [symmetric] WalkSkipDir this w2] show ?thesis .
    next
      case (WalkError err)
      with True show ?thesis by simp
    qed
    then obtain new2 where d2: "docs' = d1 @ new2" and
      n2: "\<forall>doc \<in> set new2. \<exists>p c. admissible e ns p c
                          \<and> doc = \<lparr>Name = join_elems (rel @ p), Content = c\<rparr>"
      by blast
    have mono: "admissible e (n # ns) p c" if "admissible e ns p c" for p c
      using that by (cases rule: admissible.cases) (auto intro: admissible.intros)
    from d1 d2 have "docs' = docs @ (new1 @ new2)" by simp
    moreover from a1 n2 mono have "\<forall>doc \<in> set (new1 @ new2). \<exists>p c. admissible e (n # ns) p c
                          \<and> doc = \<lparr>Name = join_elems (rel @ p), Content = c\<rparr>"
      by auto blast
    ultimately show ?thesis by blast
  qed
qed


lemma walk_not_dir_no_skip:
  "\<not> node_is_dir n \<Longrightarrow> fst (walk e base rel n docs) \<noteq> WalkSkipDir"
  by (cases n) (auto simp: walkFn_def Let_def split: option.splits)

lemma walk_names_no_skip: "fst (walk_names e rel ns docs) \<noteq> WalkSkipDir"
proof (induction ns arbitrary: docs)
  case Nil
  then show ?case by simp
next
  case (Cons n ns)
  obtain r1 d1 where w1: "walk e (node_name n) (rel @ [node_name n]) n docs = (r1, d1)"
    by (cases "walk e (node_name n) (rel @ [node_name n]) n docs")
  show ?case
  proof (cases r1)
    case WalkNil
    with w1 Cons.IH [of d1] show ?thesis by simp
  next
    case WalkSkipDir
    with w1 walk_not_dir_no_skip [of n e "node_name n" "rel @ [node_name n]" docs]
    have "node_is_dir n" by auto
    with WalkSkipDir w1 Cons.IH [of d1] show ?thesis by simp
  next
    case (WalkError err)
    with w1 show ?thesis by simp
  qed
qed

lemma walk_names_complete:
  "walk_names e rel ns docs = (WalkNil, docs') \<Longrightarrow> FileNode n (Some c) \<in> set ns
     \<Longrightarrow> \<not> HasPrefix n ''.'' \<Longrightarrow> \<not> isBinaryFile e n \<Longrightarrow> \<not> isBinaryContent c
     \<Longrightarrow> \<lparr>Name = join_elems (rel @ [n]), Content = c\<rparr> \<in> set docs'"
proof (induction ns arbitrary: docs)
  case Nil
  then show ?case by simp
next
  case (Cons m ns)
  obtain r1 d1 where w1: "walk e (node_name m) (rel @ [node_name m]) m docs = (r1, d1)"
    by (cases "walk e (node_name m) (rel @ [node_name m]) m docs")
  from Cons.prems(1) w1 have w2: "walk_names e rel ns d1 = (WalkNil, docs')"
    and r1: "r1 = WalkNil \<or> r1 = WalkSkipDir"
    by (cases r1; auto split: if_splits)+
  from walk_names_sound [OF w2] obtain new where d': "docs' = d1 @ new"
    by blast
  show ?case
  proof (cases "m = FileNode n (Some c)")
    case True
    with w1 Cons.prems(3-5) r1
    have "d1 = docs @ [\<lparr>Name = join_elems (rel @ [n]), Content = c\<rparr>]"
      by (auto simp: walkFn_def Let_def split: if_splits)
    with d' show ?thesis by simp
  next
    case False
    with Cons.prems(2) have "FileNode n (Some c) \<in> set ns" by simp
    from Cons.IH [OF w2 this Cons.prems(3-5)] show ?thesis .
  qed
qed

lemma HasSuffix_Ext:
  "HasSuffix n [CHR ''.'', a, b] \<Longrightarrow> a \<noteq> slash \<Longrightarrow> b \<noteq> slash \<Longrightarrow> a \<noteq> CHR ''.'' \<Longrightarrow> b \<noteq> CHR ''.''
     \<Longrightarrow> Ext n = [CHR ''.'', a, b]"
proof -
  assume h: "HasSuffix n [CHR ''.'', a, b]" and ne: "a \<noteq> slash" "b \<noteq> slash" "a \<noteq> CHR ''.''" "b \<noteq> CHR ''.''"
  from h have "n = take (length n - 3) n @ [CHR ''.'', a, b]"
    unfolding HasSuffix_def by (metis append_take_drop_id length_Cons list.size(3) numeral_3_eq_3)
  then obtain pre where "n = pre @ [CHR ''.'', a, b]" ..
  then have "rev n = b # a # CHR ''.'' # rev pre" by simp
  with ne show ?thesis by (simp add: Ext_def slash_def)
qed

lemma source_file_not_binary:
  assumes "HasSuffix n ''.go'' \<or> HasSuffix n ''.py'' \<or> HasSuffix n ''.ts''"
  shows "\<not> isBinaryFile e n"
proof -
  from assms have "Ext n = ''.go'' \<or> Ext n = ''.py'' \<or> Ext n = ''.ts''"
    using HasSuffix_Ext [of n "CHR ''g''" "CHR ''o''"] HasSuffix_Ext [of n "CHR ''p''" "CHR ''y''"]
      HasSuffix_Ext [of n "CHR ''t''" "CHR ''s''"]
    by (auto simp: slash_def)
  moreover have "ToLower e ''.go'' = ''.go''" "ToLower e ''.py'' = ''.py''" "ToLower e ''.ts'' = ''.ts''"
    by (simp_all add: ToLower_def ascii_lower_def)
  ultimately show ?thesis
    by (auto simp: isBinaryFile_def binaryExts_def)
qed

text \<open>
  C7 (as amended). For every walk of a directory tree: every ingested document is the
  content of a file of the tree, under the name of its relative path, that is reached
  through directories none of which is hidden or on the denylist (a whole subtree
  below such a directory is pruned) and that has no null byte in its first 8 KiB; and
  when the walk ends without an error, the path that is walked is the directory itself
  and not a symbolic link to it, and the name of the root directory is neither hidden
  nor on the denylist, every readable top-level file that is not hidden, ends in
  \<^verbatim>\<open>.go\<close>, \<^verbatim>\<open>.py\<close> or \<^verbatim>\<open>.ts\<close> and has no null byte in its first 8 KiB is among
  the documents.
\<close>

theorem C7_ingestion:
  assumes "Walk e root lst readable ns [] = (r, docs)"
  shows "(\<forall>doc \<in> set docs.
            \<exists>p c. admissible e ns p c
              \<and> doc = \<lparr>Name = join_elems p, Content = c\<rparr>
              \<and> (\<forall>d \<in> set (butlast p). \<not> HasPrefix d ''.'' \<and> \<not> isSkippedDir d)
              \<and> CHR 0x00 \<notin> set (take 8192 c))
         \<and> (r = WalkNil \<and> lst \<noteq> RootSymlink
               \<and> \<not> HasPrefix (Base root) ''.'' \<and> \<not> isSkippedDir (Base root) \<longrightarrow>
              (\<forall>n c. FileNode n (Some c) \<in> set ns \<and> \<not> HasPrefix n ''.''
                      \<and> (HasSuffix n ''.go'' \<or> HasSuffix n ''.py'' \<or> HasSuffix n ''.ts'')
                      \<and> CHR 0x00 \<notin> set (take 8192 c)
                 \<longrightarrow> \<lparr>Name = n, Content = c\<rparr> \<in> set docs))"
proof (intro conjI ballI impI allI)
  fix doc
  assume d: "doc \<in> set docs"
  have "lst = RootDir"
  proof (rule ccontr)
    assume "lst \<noteq> RootDir"
    with assms have "docs = []"
      by (cases lst) (auto simp: Walk_def walkFn_def split: if_splits)
    with d show False by simp
  qed
  obtain r0 docs0 where w: "walk e (Base root) [] (DirNode (Base root) readable ns) [] = (r0, docs0)"
    by (cases "walk e (Base root) [] (DirNode (Base root) readable ns) []")
  with assms \<open>lst = RootDir\<close> have "docs0 = docs"
    by (cases r0) (simp_all add: Walk_def)
  with walk_sound [OF w] d obtain p c where
    a: "admissible e ns p c" and n: "doc = \<lparr>Name = join_elems p, Content = c\<rparr>"
    by auto
  from admissible_path [OF a] a n
  show "\<exists>p c. admissible e ns p c
              \<and> doc = \<lparr>Name = join_elems p, Content = c\<rparr>
              \<and> (\<forall>d \<in> set (butlast p). \<not> HasPrefix d ''.'' \<and> \<not> isSkippedDir d)
              \<and> CHR 0x00 \<notin> set (take 8192 c)"
    by blast
next
  fix n c
  assume ok: "r = WalkNil \<and> lst \<noteq> RootSymlink
                \<and> \<not> HasPrefix (Base root) ''.'' \<and> \<not> isSkippedDir (Base root)"
    and f: "FileNode n (Some c) \<in> set ns \<and> \<not> HasPrefix n ''.''
              \<and> (HasSuffix n ''.go'' \<or> HasSuffix n ''.py'' \<or> HasSuffix n ''.ts'')
              \<and> CHR 0x00 \<notin> set (take 8192 c)"
  from assms ok have lst: "lst = RootDir"
    by (cases lst) (auto simp: Walk_def walkFn_def)
  from assms ok lst have rd: readable
    by (auto simp: Walk_def walkFn_def split: if_splits)
  obtain r0 docs0 where w: "walk_names e [] ns [] = (r0, docs0)"
    by (cases "walk_names e [] ns []")
  with walk_names_no_skip [of e "[]" ns "[]"] have "r0 \<noteq> WalkSkipDir" by simp
  with assms ok lst rd w have "r0 = WalkNil" "docs0 = docs"
    by (cases r0; simp add: Walk_def walkFn_def)+
  with w have w': "walk_names e [] ns [] = (WalkNil, docs)" by simp
  from f have "\<not> isBinaryFile e n" "\<not> isBinaryContent c"
    by (simp_all add: source_file_not_binary isBinaryContent_def)
  with walk_names_complete [OF w', of n c] f
  show "\<lparr>Name = n, Content = c\<rparr> \<in> set docs" by simp
qed

lemma sample_walk_proj:
  "Walk (sample_env []) ''/home/u/proj'' RootDir True sample_tree []
     = (WalkNil, [\<lparr>Name = ''main.go'', Content = ''package main''\<rparr>])"
  by code_simp

text \<open>The theorem at the sample tree: \<^verbatim>\<open>main.go\<close> is ingested, and nothing else.\<close>

theorem C7_ingestion_witness:
  "Walk (sample_env []) ''/home/u/proj'' RootDir True sample_tree []
     = (WalkNil, [\<lparr>Name = ''main.go'', Content = ''package main''\<rparr>])
   \<and> RootDir \<noteq> RootSymlink
   \<and> \<not> HasPrefix (Base ''/home/u/proj'') ''.'' \<and> \<not> isSkippedDir (Base ''/home/u/proj'')
   \<and> FileNode ''main.go'' (Some ''package main'') \<in> set sample_tree
   \<and> \<lparr>Name = ''main.go'', Content = ''package main''\<rparr>
        \<in> set [\<lparr>Name = ''main.go'', Content = ''package main''\<rparr>]
   \<and> CHR 0x00 \<notin> set (take 8192 ''package main'')"
proof -
  let ?docs = "[\<lparr>Name = ''main.go'', Content = ''package main''\<rparr>]"
  have root: "\<not> HasPrefix (Base ''/home/u/proj'') ''.'' \<and> \<not> isSkippedDir (Base ''/home/u/proj'')"
    by code_simp
  have leaf: "FileNode ''main.go'' (Some ''package main'') \<in> set sample_tree
      \<and> \<not> HasPrefix ''main.go'' ''.''
      \<and> (HasSuffix ''main.go'' ''.go'' \<or> HasSuffix ''main.go'' ''.py'' \<or> HasSuffix ''main.go'' ''.ts'')
      \<and> CHR 0x00 \<notin> set (take 8192 ''package main'')"
    by code_simp
  have kind: "RootDir \<noteq> RootSymlink" by simp
  from C7_ingestion [OF sample_walk_proj] root leaf kind
  have "\<lparr>Name = ''main.go'', Content = ''package main''\<rparr> \<in> set ?docs"
    by blast
  with sample_walk_proj root leaf kind show ?thesis by blast
qed


text \<open>The claim as stated fails for a root directory that is itself named like a
  skipped directory: the callback prunes the root, the walk ends without an error
  and with no document, although \<^verbatim>\<open>main.go\<close> is a plain top-level file, and
  \<^verbatim>\<open>IndexDirectory\<close> reports success. It fails in the same way for a path that is a
  symbolic link to the directory: \<^verbatim>\<open>os.Stat\<close> follows the link and finds a directory,
  the walk does not follow it and visits the link as a file that cannot be read.\<close>

theorem C7_ingestion_counterexample:
  "FileNode ''main.go'' (Some ''package main'') \<in> set sample_tree
   \<and> Walk (sample_env []) ''/home/u/build'' RootDir True sample_tree [] = (WalkNil, [])
   \<and> fst (IndexDirectory (sample_env []) NoStore ''/home/u/build'') = None
   \<and> os_Stat linked_root_env ''/home/u/link'' = StatDir RootSymlink True sample_tree
   \<and> Walk linked_root_env ''/home/u/link'' RootSymlink True sample_tree [] = (WalkNil, [])
   \<and> fst (IndexDirectory linked_root_env NoStore ''/home/u/link'') = None"
  by code_simp


section \<open>Building, committing and deleting\<close>




lemma set_put_entry_cases: "x \<in> set (put_entry n d es) \<Longrightarrow> x = (n, d) \<or> x \<in> set es"
  by (induction es) (auto split: if_splits)






























section \<open>Sequences of operations and the invariant\<close>














































end
